theory Spec2Isabelle
  imports Complex_Main
begin

section \<open>Python values, errors and the calling convention\<close>

text \<open>
  The exceptions the embedded functions can raise. A function that can raise returns
  \<open>py_error + 'a\<close>, with \<open>Inl\<close> for the exception.
  \<open>NaNResult\<close> marks the one place where the floating-point code leaves the real numbers:
  the mean over an empty window, which torch evaluates to NaN without raising.
\<close>

datatype py_error =
  TypeError | IndexError | AssertionError | RuntimeError | ValueError | ZeroDivisionError
  | NaNResult

text \<open>
  Constructor arguments are opaque objects (schedulers, an algorithm, a codec, a generator)
  or booleans.
\<close>

datatype 'o py_value = Obj 'o | Bool bool

text \<open>
  A call \<open>f(*args, **kwargs)\<close> of a function whose parameters are all positional-or-keyword
  and which has no \<open>*args\<close> / \<open>**kwargs\<close> catch-all, as every initializer in
  \<open>overlap.py\<close>. A parameter is its name and its default, if it has one. Binding fails with
  TypeError on too many positional arguments, on a keyword that names no parameter, on a
  parameter given twice, and on a parameter without default that is not given.
\<close>

type_synonym 'o params = "(string \<times> 'o py_value option) list"
type_synonym 'o binding = "(string \<times> 'o py_value) list"

fun bind_positional :: "string list \<Rightarrow> 'o py_value list \<Rightarrow> py_error + 'o binding" where
  "bind_positional names [] = Inr []"
| "bind_positional [] (a # as) = Inl TypeError"
| "bind_positional (n # names) (a # as) =
     (case bind_positional names as of
        Inl e \<Rightarrow> Inl e
      | Inr b \<Rightarrow> Inr ((n, a) # b))"

fun bind_keywords :: "string list \<Rightarrow> 'o binding \<Rightarrow> 'o binding \<Rightarrow> py_error + 'o binding" where
  "bind_keywords names bound [] = Inr bound"
| "bind_keywords names bound ((k, v) # kws) =
     (if k \<notin> set names then Inl TypeError
      else if k \<in> set (map fst bound) then Inl TypeError
      else bind_keywords names (bound @ [(k, v)]) kws)"

fun fill_defaults :: "'o params \<Rightarrow> 'o binding \<Rightarrow> py_error + 'o py_value list" where
  "fill_defaults [] bound = Inr []"
| "fill_defaults ((n, d) # ps) bound =
     (case (case map_of bound n of Some v \<Rightarrow> Some v | None \<Rightarrow> d) of
        None \<Rightarrow> Inl TypeError
      | Some v \<Rightarrow>
          (case fill_defaults ps bound of
             Inl e \<Rightarrow> Inl e
           | Inr vs \<Rightarrow> Inr (v # vs)))"

definition bind_call ::
  "'o params \<Rightarrow> 'o py_value list \<Rightarrow> 'o binding \<Rightarrow> py_error + 'o py_value list" where
  "bind_call ps args kwargs =
     (case bind_positional (map fst ps) args of
        Inl e \<Rightarrow> Inl e
      | Inr pos \<Rightarrow>
          (case bind_keywords (map fst ps) pos kwargs of
             Inl e \<Rightarrow> Inl e
           | Inr bound \<Rightarrow> fill_defaults ps bound))"

section \<open>The constructors of \<open>overlap.py\<close>\<close>

text \<open>
  \<open>Overlap.__init__(self, alpha_scheduler, kernel_radius_scheduler, algorithm, verbose=True)\<close>
  stores its four arguments in the object.
\<close>

record 'o Overlap_obj =
  obj_verbose :: "'o py_value"
  obj_algorithm :: "'o py_value"
  obj_alpha_scheduler :: "'o py_value"
  obj_kernel_radius_scheduler :: "'o py_value"

definition Overlap_params :: "'o params" where
  "Overlap_params =
     [(''alpha_scheduler'', None), (''kernel_radius_scheduler'', None), (''algorithm'', None),
      (''verbose'', Some (Bool True))]"

definition Overlap_init :: "'o py_value list \<Rightarrow> 'o binding \<Rightarrow> py_error + 'o Overlap_obj" where
  "Overlap_init args kwargs =
     (case bind_call Overlap_params args kwargs of
        Inl e \<Rightarrow> Inl e
      | Inr [a, k, alg, v] \<Rightarrow>
          Inr \<lparr>obj_verbose = v, obj_algorithm = alg, obj_alpha_scheduler = a,
               obj_kernel_radius_scheduler = k\<rparr>
      | Inr _ \<Rightarrow> Inl TypeError)"

text \<open>
  \<open>VAEOverlap.__init__(self, vae, generator, algorithm, alpha_scheduler,
  corr_map_decay_scheduler, kernel_radius_scheduler, verbose=True)\<close> calls
  \<open>super().__init__\<close> with five keyword arguments and then stores the codec and the generator.
\<close>

record 'o VAEOverlap_obj = "'o Overlap_obj" +
  obj_vae :: "'o py_value"
  obj_generator :: "'o py_value"

definition VAEOverlap_params :: "'o params" where
  "VAEOverlap_params =
     [(''vae'', None), (''generator'', None), (''algorithm'', None), (''alpha_scheduler'', None),
      (''corr_map_decay_scheduler'', None), (''kernel_radius_scheduler'', None),
      (''verbose'', Some (Bool True))]"

definition VAEOverlap_init ::
  "'o py_value list \<Rightarrow> 'o binding \<Rightarrow> py_error + 'o VAEOverlap_obj" where
  "VAEOverlap_init args kwargs =
     (case bind_call VAEOverlap_params args kwargs of
        Inl e \<Rightarrow> Inl e
      | Inr [va, gen, alg, a, cmd, k, v] \<Rightarrow>
          (case Overlap_init []
                  [(''alpha_scheduler'', a), (''corr_map_decay_scheduler'', cmd),
                   (''kernel_radius_scheduler'', k), (''algorithm'', alg), (''verbose'', v)] of
             Inl e \<Rightarrow> Inl e
           | Inr base \<Rightarrow> Inr (Overlap_obj.extend base \<lparr>obj_vae = va, obj_generator = gen\<rparr>))
      | Inr _ \<Rightarrow> Inl TypeError)"

section \<open>The resize adapter's corner alignment\<close>

text \<open>
  \<open>align_corners = False if self.interpolate_mode in ['linear', 'bilinear', 'bicubic',
  'trilinear'] else None\<close>: the keyword passed to \<open>F.interpolate\<close>, where \<open>None\<close> is Python's
  \<open>None\<close> and \<open>Some b\<close> the boolean \<open>b\<close>.
\<close>

definition align_corners :: "string \<Rightarrow> bool option" where
  "align_corners interpolate_mode =
     (if interpolate_mode \<in> set [''linear'', ''bilinear'', ''bicubic'', ''trilinear'']
      then Some False else None)"

section \<open>Schedules and the kernel radius\<close>

text \<open>
  Floating-point numbers are modelled as reals. Python's \<open>int(x)\<close> of a float truncates
  toward zero.
\<close>

definition py_int :: "real \<Rightarrow> int" where
  "py_int x = (if 0 \<le> x then \<lfloor>x\<rfloor> else \<lceil>x\<rceil>)"

text \<open>
  The class \<open>Scheduler\<close> is not among the sources: a scheduler is a parameter, a function of
  the step and the timestep (both optional, \<open>None\<close> by default).
\<close>

type_synonym scheduler = "int option \<Rightarrow> real option \<Rightarrow> real"

text \<open>
  The radius that \<open>Overlap.__call__\<close> uses:
  \<open>kernel_radius = int(self.kernel_radius_scheduler(step, timestep))\<close>.
\<close>

definition overlap_kernel_radius :: "scheduler \<Rightarrow> int option \<Rightarrow> real option \<Rightarrow> int" where
  "overlap_kernel_radius kernel_radius_scheduler step timestep =
     py_int (kernel_radius_scheduler step timestep)"

text \<open>A scheduler that returns the same value at every step.\<close>

definition constant_scheduler :: "real \<Rightarrow> scheduler" where
  "constant_scheduler c = (\<lambda>step timestep. c)"

section \<open>Extended traces\<close>

text \<open>
  \<open>Overlap._get_extended_traces\<close> copies the three traces into lists and replaces, for every
  index that the zip of the two position traces reaches, the entry by a list: the window of
  rows, the window of columns, the frame index repeated as often as the window is long. An
  entry of the result is therefore a window, or a plain integer where the zip did not
  reach. The frame-index trace is read at every index the zip reaches, which fails when
  it is shorter. All windows of one call have the same length, that of \<open>range(-R, R + 1)\<close>.
\<close>

datatype entry = Scalar int | Window "int list"

definition clamp :: "int \<Rightarrow> int \<Rightarrow> int \<Rightarrow> int" where
  "clamp v lo hi = min (max v lo) hi"

definition window :: "int \<Rightarrow> int \<Rightarrow> int \<Rightarrow> int list" where
  "window kernel_radius pos max_pos =
     map (\<lambda>i. clamp (pos + i) 0 (max_pos - 1)) [- kernel_radius .. kernel_radius]"

definition get_extended_traces ::
  "int \<Rightarrow> int list \<Rightarrow> int list \<Rightarrow> int list \<Rightarrow> int \<Rightarrow> int
     \<Rightarrow> py_error + (entry list \<times> entry list \<times> entry list)" where
  "get_extended_traces kernel_radius frame_index_trace x_position_trace y_position_trace
       max_x max_y =
     (let n = min (length y_position_trace) (length x_position_trace)
      in if length frame_index_trace < n then Inl IndexError
         else Inr
           (map (\<lambda>f. Window (replicate (length (window kernel_radius 0 max_y)) f))
                (take n frame_index_trace)
              @ map Scalar (drop n frame_index_trace),
            map (\<lambda>y. Window (window kernel_radius y max_y)) (take n y_position_trace)
              @ map Scalar (drop n y_position_trace),
            map (\<lambda>x. Window (window kernel_radius x max_x)) (take n x_position_trace)
              @ map Scalar (drop n x_position_trace)))"

section \<open>Tensors and their storage\<close>

text \<open>
  A \<open>[B, C]\<close> slice of a tensor: the values of all batch entries and channels at one
  position of one frame. Floating-point values are modelled as reals.
\<close>

type_synonym block = "nat \<Rightarrow> nat \<Rightarrow> real"

text \<open>A frame: a tensor of shape \<open>[B, C, H, W]\<close>, indexed in that order.\<close>

record frame =
  f_batch :: nat
  f_channels :: nat
  f_height :: nat
  f_width :: nat
  f_data :: "nat \<Rightarrow> nat \<Rightarrow> nat \<Rightarrow> nat \<Rightarrow> real"

definition shape :: "frame \<Rightarrow> nat \<times> nat \<times> nat \<times> nat" where
  "shape fr = (f_batch fr, f_channels fr, f_height fr, f_width fr)"

text \<open>
  The elements of a tensor of shape \<open>[T, B, C, H, W]\<close>, and such a tensor as a value.
\<close>

type_synonym elements = "nat \<Rightarrow> nat \<Rightarrow> nat \<Rightarrow> nat \<Rightarrow> nat \<Rightarrow> real"

record tensor_value =
  v_T :: nat
  v_B :: nat
  v_C :: nat
  v_H :: nat
  v_W :: nat
  v_data :: elements

text \<open>
  A torch tensor is a view of a storage: two tensors over the same storage see each
  other's in-place writes. The heap maps storages to their elements; a tensor is the
  storage it views and its shape.
\<close>

record heap =
  cells :: "nat \<Rightarrow> elements"
  next_free :: nat

record tensor =
  storage :: nat
  dim_T :: nat
  dim_B :: nat
  dim_C :: nat
  dim_H :: nat
  dim_W :: nat

definition empty_heap :: heap where
  "empty_heap = \<lparr>cells = (\<lambda>a t b c y x. 0), next_free = 0\<rparr>"

text \<open>The elements of the frames stacked along a new first axis.\<close>

definition stacked :: "frame list \<Rightarrow> elements" where
  "stacked frame_seq = (\<lambda>t b c y x. if t < length frame_seq then f_data (frame_seq ! t) b c y x else 0)"

definition stacked_value :: "frame list \<Rightarrow> tensor_value" where
  "stacked_value frame_seq =
     \<lparr>v_T = length frame_seq, v_B = f_batch (hd frame_seq), v_C = f_channels (hd frame_seq),
      v_H = f_height (hd frame_seq), v_W = f_width (hd frame_seq), v_data = stacked frame_seq\<rparr>"

text \<open>
  \<open>torch.stack(frame_seq, dim=0)\<close> on a non-empty list of frames of one shape (the caller
  checks both): a tensor over a fresh storage that holds a copy of the frames.
\<close>

definition torch_stack :: "heap \<Rightarrow> frame list \<Rightarrow> heap \<times> tensor" where
  "torch_stack h frame_seq =
     (h\<lparr>cells := (cells h)(next_free h := stacked frame_seq), next_free := Suc (next_free h)\<rparr>,
      \<lparr>storage = next_free h, dim_T = length frame_seq, dim_B = f_batch (hd frame_seq),
       dim_C = f_channels (hd frame_seq), dim_H = f_height (hd frame_seq),
       dim_W = f_width (hd frame_seq)\<rparr>)"

text \<open>
  \<open>Tensor.detach()\<close> returns a tensor cut off from the autograd graph that shares the
  storage of the tensor it is called on; no element is copied.
\<close>

definition detach :: "tensor \<Rightarrow> tensor" where
  "detach t = t"

definition value_of :: "heap \<Rightarrow> tensor \<Rightarrow> tensor_value" where
  "value_of h t =
     \<lparr>v_T = dim_T t, v_B = dim_B t, v_C = dim_C t, v_H = dim_H t, v_W = dim_W t,
      v_data = cells h (storage t)\<rparr>"

subsection \<open>Errors in sequence\<close>

fun err_bind :: "py_error + 'a \<Rightarrow> ('a \<Rightarrow> py_error + 'b) \<Rightarrow> py_error + 'b" where
  "err_bind (Inl e) f = Inl e"
| "err_bind (Inr a) f = f a"

fun err_map :: "('a \<Rightarrow> py_error + 'b) \<Rightarrow> 'a list \<Rightarrow> py_error + 'b list" where
  "err_map f [] = Inr []"
| "err_map f (x # xs) =
     (case f x of
        Inl e \<Rightarrow> Inl e
      | Inr y \<Rightarrow> (case err_map f xs of Inl e \<Rightarrow> Inl e | Inr ys \<Rightarrow> Inr (y # ys)))"

subsection \<open>Indexing\<close>

text \<open>
  An index into an axis of size \<open>n\<close>: values in \<open>[-n, 0)\<close> count from the end, values
  outside \<open>[-n, n)\<close> raise IndexError.
\<close>

definition norm_index :: "nat \<Rightarrow> int \<Rightarrow> py_error + nat" where
  "norm_index n i =
     (if 0 \<le> i \<and> i < int n then Inr (nat i)
      else if - int n \<le> i \<and> i < 0 then Inr (nat (i + int n))
      else Inl IndexError)"

text \<open>A position \<open>(frame, row, column)\<close> of a tensor.\<close>

definition norm_pos :: "tensor \<Rightarrow> int \<times> int \<times> int \<Rightarrow> py_error + (nat \<times> nat \<times> nat)" where
  "norm_pos t p =
     (case p of (f, y, x) \<Rightarrow>
        err_bind (norm_index (dim_T t) f) (\<lambda>f'.
        err_bind (norm_index (dim_H t) y) (\<lambda>y'.
        err_bind (norm_index (dim_W t) x) (\<lambda>x'. Inr (f', y', x')))))"

definition read_block :: "heap \<Rightarrow> tensor \<Rightarrow> nat \<times> nat \<times> nat \<Rightarrow> block" where
  "read_block h t p = (case p of (f, y, x) \<Rightarrow> (\<lambda>b c. cells h (storage t) f b c y x))"

definition write_block :: "heap \<Rightarrow> tensor \<Rightarrow> nat \<times> nat \<times> nat \<Rightarrow> block \<Rightarrow> heap" where
  "write_block h t p blk =
     (case p of (f, y, x) \<Rightarrow>
        h\<lparr>cells := (cells h)(storage t :=
             (\<lambda>f' b c y' x'.
                if f' = f \<and> y' = y \<and> x' = x \<and> b < dim_B t \<and> c < dim_C t then blk b c
                else cells h (storage t) f' b c y' x'))\<rparr>)"

text \<open>
  \<open>t[fs, :, :, ys, xs]\<close> for three index sequences of one length \<open>L\<close>: the \<open>L\<close> blocks at
  the positions \<open>(fs[i], ys[i], xs[i])\<close>.
\<close>

definition index_get ::
  "heap \<Rightarrow> tensor \<Rightarrow> int list \<Rightarrow> int list \<Rightarrow> int list \<Rightarrow> py_error + block list" where
  "index_get h t fs ys xs =
     err_bind (err_map (norm_pos t) (zip fs (zip ys xs))) (\<lambda>ps. Inr (map (read_block h t) ps))"

text \<open>
  \<open>t[fs, :, :, ys, xs] = vals\<close>: the blocks are written in sequence, so of two writes to one
  position the later one stays.
\<close>

definition index_put ::
  "heap \<Rightarrow> tensor \<Rightarrow> int list \<Rightarrow> int list \<Rightarrow> int list \<Rightarrow> block list \<Rightarrow> py_error + heap" where
  "index_put h t fs ys xs vals =
     err_bind (err_map (norm_pos t) (zip fs (zip ys xs)))
       (\<lambda>ps. Inr (fold (\<lambda>(p, v) h'. write_block h' t p v) (zip ps vals) h))"

text \<open>
  The same with nested index sequences, as the extended traces are: one window of blocks
  for each trace point. A nested sequence with a plain integer among its windows is ragged
  and rejected.
\<close>

fun as_window :: "entry \<Rightarrow> py_error + int list" where
  "as_window (Window w) = Inr w"
| "as_window (Scalar i) = Inl ValueError"

definition index_get_windows ::
  "heap \<Rightarrow> tensor \<Rightarrow> entry list \<Rightarrow> entry list \<Rightarrow> entry list \<Rightarrow> py_error + block list list"
  where
  "index_get_windows h t efs eys exs =
     err_bind (err_map as_window efs) (\<lambda>fws.
     err_bind (err_map as_window eys) (\<lambda>yws.
     err_bind (err_map as_window exs) (\<lambda>xws.
       err_map (\<lambda>(fw, yw, xw). index_get h t fw yw xw) (zip fws (zip yws xws)))))"

definition mean_block :: "block list \<Rightarrow> block" where
  "mean_block ws = (\<lambda>b c. (\<Sum>w\<leftarrow>ws. w b c) / real (length ws))"

text \<open>
  \<open>.mean(dim=1)\<close> over the window axis. Over an empty window torch returns NaN, which the
  reals do not have.
\<close>

definition mean_dim1 :: "block list list \<Rightarrow> py_error + block list" where
  "mean_dim1 wss = (if [] \<in> set wss then Inl NaNResult else Inr (map mean_block wss))"

definition blend :: "real \<Rightarrow> block \<Rightarrow> block \<Rightarrow> block" where
  "blend alpha overlapped latent = (\<lambda>b c. alpha * overlapped b c + (1 - alpha) * latent b c)"

text \<open>
  \<open>alpha * overlapped_seq + (1 - alpha) * latent_seq\<close> for an \<open>overlapped_seq\<close> of \<open>L'\<close>
  blocks and a \<open>latent_seq\<close> of \<open>L\<close> blocks: the first axis broadcasts when one of the two
  has size one and fails when the sizes differ otherwise.
\<close>

definition blend_seq :: "real \<Rightarrow> block list \<Rightarrow> block list \<Rightarrow> py_error + block list" where
  "blend_seq alpha overlapped_seq latent_seq =
     (if length overlapped_seq = length latent_seq
      then Inr (map2 (blend alpha) overlapped_seq latent_seq)
      else if length overlapped_seq = 1
      then Inr (map (blend alpha (hd overlapped_seq)) latent_seq)
      else if length latent_seq = 1
      then Inr (map (\<lambda>ov. blend alpha ov (hd latent_seq)) overlapped_seq)
      else Inl RuntimeError)"

section \<open>The overlap pass\<close>

text \<open>
  The class \<open>CorrespondenceMap\<close> is not among the sources; the fields are the attributes
  that \<open>overlap.py\<close> reads. \<open>Map\<close> is a dictionary from surface-element ids to occurrence
  lists, kept in its iteration order; an occurrence is \<open>((row, column), frame_index)\<close>.
  \<open>c_len\<close> is what \<open>len(corr_map)\<close> returns.
\<close>

type_synonym occurrence = "(int \<times> int) \<times> int"

record 'k correspondence_map =
  c_Map :: "('k \<times> occurrence list) list"
  c_height :: nat
  c_width :: nat
  c_size :: "nat \<times> nat"
  c_len :: nat

text \<open>
  The class \<open>OverlapAlgorithm\<close> is not among the sources: \<open>algorithm.overlap\<close> is a
  parameter, a function of the neighbourhood averages (one block for each occurrence), the
  frame-index trace, the column trace and the row trace, returning the consensus blocks.
\<close>

type_synonym overlap_algorithm = "block list \<Rightarrow> int list \<Rightarrow> int list \<Rightarrow> int list \<Rightarrow> block list"

text \<open>
  One iteration of the loop of \<open>Overlap.__call__\<close> over \<open>corr_map.Map.values()\<close>, on the
  heap. \<open>progress_slice\<close> is \<open>None\<close> when the engine is looping (no progress bar), else
  \<open>len(corr_map) // 100\<close>, by which the iteration number is reduced. Reads go through
  \<open>frame_seq_stack\<close>, the write through \<open>frame_seq_stack_copy\<close>. The diagnostic counters
  are not modelled.
\<close>

definition overlap_vertex ::
  "overlap_algorithm \<Rightarrow> real \<Rightarrow> int \<Rightarrow> nat option \<Rightarrow> tensor \<Rightarrow> tensor
     \<Rightarrow> occurrence list \<Rightarrow> heap \<Rightarrow> py_error + heap" where
  "overlap_vertex algorithm alpha kernel_radius progress_slice frame_seq_stack
       frame_seq_stack_copy v_info h =
     (if progress_slice = Some 0 then Inl ZeroDivisionError
      else if length v_info = 1 then Inr h
      else if v_info = [] then Inl ValueError
      else
        let position_trace = map fst v_info;
            frame_index_trace = map snd v_info;
            y_position_trace = map fst position_trace;
            x_position_trace = map snd position_trace
        in
        err_bind (get_extended_traces kernel_radius frame_index_trace x_position_trace
                    y_position_trace (int (dim_W frame_seq_stack)) (int (dim_H frame_seq_stack)))
          (\<lambda>(extended_frame_index_trace, extended_y_position_trace, extended_x_position_trace).
        err_bind (index_get h frame_seq_stack frame_index_trace y_position_trace
                    x_position_trace)
          (\<lambda>latent_seq.
        err_bind (index_get_windows h frame_seq_stack extended_frame_index_trace
                    extended_y_position_trace extended_x_position_trace)
          (\<lambda>window_values.
        err_bind (mean_dim1 window_values)
          (\<lambda>average_pool_nearby_pixels_latent_seq.
        err_bind (blend_seq alpha
                    (algorithm average_pool_nearby_pixels_latent_seq frame_index_trace
                       x_position_trace y_position_trace)
                    latent_seq)
          (\<lambda>new_values.
             index_put h frame_seq_stack_copy frame_index_trace y_position_trace
               x_position_trace new_values))))))"

fun overlap_loop ::
  "overlap_algorithm \<Rightarrow> real \<Rightarrow> int \<Rightarrow> nat option \<Rightarrow> tensor \<Rightarrow> tensor
     \<Rightarrow> occurrence list list \<Rightarrow> heap \<Rightarrow> py_error + heap" where
  "overlap_loop algorithm alpha kernel_radius progress_slice st cp [] h = Inr h"
| "overlap_loop algorithm alpha kernel_radius progress_slice st cp (v_info # rest) h =
     (case overlap_vertex algorithm alpha kernel_radius progress_slice st cp v_info h of
        Inl e \<Rightarrow> Inl e
      | Inr h' \<Rightarrow> overlap_loop algorithm alpha kernel_radius progress_slice st cp rest h')"

text \<open>
  \<open>Overlap.__call__(frame_seq, corr_map, step, timestep)\<close>. \<open>engine_looping\<close> is what
  \<open>is_engine_looping()\<close> returns (the function is not among the sources); outside the engine
  loop the call formats the timestep for a log line and drives a progress bar. The result
  is the tensor \<open>frame_seq_stack_copy\<close>, as a value.
\<close>

definition overlap ::
  "scheduler \<Rightarrow> scheduler \<Rightarrow> overlap_algorithm \<Rightarrow> bool \<Rightarrow> frame list
     \<Rightarrow> 'k correspondence_map \<Rightarrow> int option \<Rightarrow> real option \<Rightarrow> py_error + tensor_value" where
  "overlap alpha_scheduler kernel_radius_scheduler algorithm engine_looping frame_seq
       corr_map step timestep =
     (case frame_seq of
        [] \<Rightarrow> Inl IndexError
      | fr0 # _ \<Rightarrow>
          if (f_height fr0, f_width fr0) \<noteq> (c_height corr_map, c_width corr_map)
          then Inl AssertionError
          else if \<not> list_all (\<lambda>fr. shape fr = shape fr0) frame_seq then Inl RuntimeError
          else
            let (h, frame_seq_stack) = torch_stack empty_heap frame_seq;
                frame_seq_stack_copy = detach frame_seq_stack;
                alpha = alpha_scheduler step timestep;
                kernel_radius = overlap_kernel_radius kernel_radius_scheduler step timestep
            in
            if \<not> engine_looping \<and> timestep = None then Inl TypeError
            else
              let progress_slice =
                    (if engine_looping then None else Some (c_len corr_map div 100))
              in
              err_bind (overlap_loop algorithm alpha kernel_radius progress_slice
                          frame_seq_stack frame_seq_stack_copy (map snd (c_Map corr_map)) h)
                (\<lambda>h'. Inr (value_of h' frame_seq_stack_copy)))"

text \<open>
  The pass in the spec's words (section 4.2, step 8, and section 5): the output stack
  starts as a full copy of the input stack. \<open>Tensor.clone()\<close> returns a tensor over a
  fresh storage that holds a copy of the elements; the body below is that of \<open>overlap\<close>
  with the output stack cloned.
\<close>

definition clone :: "heap \<Rightarrow> tensor \<Rightarrow> heap \<times> tensor" where
  "clone h t =
     (h\<lparr>cells := (cells h)(next_free h := cells h (storage t)), next_free := Suc (next_free h)\<rparr>,
      t\<lparr>storage := next_free h\<rparr>)"

definition overlap_on_copy ::
  "scheduler \<Rightarrow> scheduler \<Rightarrow> overlap_algorithm \<Rightarrow> bool \<Rightarrow> frame list
     \<Rightarrow> 'k correspondence_map \<Rightarrow> int option \<Rightarrow> real option \<Rightarrow> py_error + tensor_value" where
  "overlap_on_copy alpha_scheduler kernel_radius_scheduler algorithm engine_looping frame_seq
       corr_map step timestep =
     (case frame_seq of
        [] \<Rightarrow> Inl IndexError
      | fr0 # _ \<Rightarrow>
          if (f_height fr0, f_width fr0) \<noteq> (c_height corr_map, c_width corr_map)
          then Inl AssertionError
          else if \<not> list_all (\<lambda>fr. shape fr = shape fr0) frame_seq then Inl RuntimeError
          else
            let (h0, frame_seq_stack) = torch_stack empty_heap frame_seq;
                (h, frame_seq_stack_copy) = clone h0 frame_seq_stack;
                alpha = alpha_scheduler step timestep;
                kernel_radius = overlap_kernel_radius kernel_radius_scheduler step timestep
            in
            if \<not> engine_looping \<and> timestep = None then Inl TypeError
            else
              let progress_slice =
                    (if engine_looping then None else Some (c_len corr_map div 100))
              in
              err_bind (overlap_loop algorithm alpha kernel_radius progress_slice
                          frame_seq_stack frame_seq_stack_copy (map snd (c_Map corr_map)) h)
                (\<lambda>h'. Inr (value_of h' frame_seq_stack_copy)))"

text \<open>
  Modelled from the spec: the consensus algorithms live in a module that is not among the
  sources. The spec's scenarios use the mean as consensus: every occurrence receives the
  mean of the neighbourhood averages of all occurrences.
\<close>

definition mean_consensus :: overlap_algorithm where
  "mean_consensus avgs frame_index_trace x_position_trace y_position_trace =
     replicate (length avgs) (mean_block avgs)"

section \<open>The resize adapter\<close>

text \<open>Iterating over a \<open>[T, B, C, H, W]\<close> tensor yields its \<open>T\<close> frames.\<close>

definition unstack :: "tensor_value \<Rightarrow> frame list" where
  "unstack tv =
     map (\<lambda>t. \<lparr>f_batch = v_B tv, f_channels = v_C tv, f_height = v_H tv, f_width = v_W tv,
               f_data = v_data tv t\<rparr>) [0..<v_T tv]"

text \<open>
  Broadcasting of two axis sizes: equal, or one of them is one; the index into an axis of
  size one is always zero.
\<close>

definition broadcast_dim :: "nat \<Rightarrow> nat \<Rightarrow> nat option" where
  "broadcast_dim m n = (if m = n then Some m else if m = 1 then Some n else if n = 1 then Some m else None)"

definition bidx :: "nat \<Rightarrow> nat \<Rightarrow> nat" where
  "bidx n i = (if n = 1 then 0 else i)"

definition element_at :: "frame \<Rightarrow> nat \<Rightarrow> nat \<Rightarrow> nat \<Rightarrow> nat \<Rightarrow> real" where
  "element_at fr b c y x =
     f_data fr (bidx (f_batch fr) b) (bidx (f_channels fr) c) (bidx (f_height fr) y)
       (bidx (f_width fr) x)"

text \<open>\<open>torch.where(ovlp != 0, ovlp, original)\<close>, element by element.\<close>

definition where_nonzero :: "frame \<Rightarrow> frame \<Rightarrow> py_error + frame" where
  "where_nonzero ovlp original =
     (case (broadcast_dim (f_batch ovlp) (f_batch original),
            broadcast_dim (f_channels ovlp) (f_channels original),
            broadcast_dim (f_height ovlp) (f_height original),
            broadcast_dim (f_width ovlp) (f_width original)) of
        (Some nb, Some nc, Some nh, Some nw) \<Rightarrow>
          Inr \<lparr>f_batch = nb, f_channels = nc, f_height = nh, f_width = nw,
               f_data = (\<lambda>b c y x. if element_at ovlp b c y x \<noteq> 0
                                    then element_at ovlp b c y x
                                    else element_at original b c y x)\<rparr>
      | _ \<Rightarrow> Inl RuntimeError)"

text \<open>
  \<open>F.interpolate(latents, size, mode, align_corners)\<close> belongs to torch: a parameter.
\<close>

type_synonym interpolation = "frame \<Rightarrow> nat \<times> nat \<Rightarrow> string \<Rightarrow> bool option \<Rightarrow> py_error + frame"

text \<open>
  \<open>ResizeOverlap.__call__\<close> up to the resize back to the native resolution (line 216): the
  frames resized to the map's size, blended there, and resized back.
\<close>

definition resized_back ::
  "interpolation \<Rightarrow> string \<Rightarrow> scheduler \<Rightarrow> scheduler \<Rightarrow> overlap_algorithm \<Rightarrow> bool
     \<Rightarrow> frame list \<Rightarrow> 'k correspondence_map \<Rightarrow> int option \<Rightarrow> real option
     \<Rightarrow> py_error + frame list" where
  "resized_back interpolate interpolate_mode alpha_scheduler kernel_radius_scheduler
       algorithm engine_looping frame_seq corr_map step timestep =
     (let (screen_w, screen_h) = c_size corr_map;
          frame_h = f_height (hd frame_seq);
          frame_w = f_width (hd frame_seq)
      in
      err_bind (err_map (\<lambda>latents. interpolate latents (screen_h, screen_w) interpolate_mode
                           (align_corners interpolate_mode)) frame_seq)
        (\<lambda>ovlp_seq.
      err_bind (overlap alpha_scheduler kernel_radius_scheduler algorithm engine_looping
                  ovlp_seq corr_map step timestep)
        (\<lambda>ovlp_stack.
           err_map (\<lambda>latents. interpolate latents (frame_h, frame_w) interpolate_mode
                      (align_corners interpolate_mode)) (unstack ovlp_stack))))"

text \<open>
  \<open>ResizeOverlap.__call__\<close>. The empty frame list fails at the first log line, before the
  schedule is read; the log line after the resize divides by the native height.
\<close>

definition resize_overlap ::
  "interpolation \<Rightarrow> string \<Rightarrow> scheduler \<Rightarrow> scheduler \<Rightarrow> overlap_algorithm \<Rightarrow> bool
     \<Rightarrow> frame list \<Rightarrow> 'k correspondence_map \<Rightarrow> int option \<Rightarrow> real option
     \<Rightarrow> py_error + frame list" where
  "resize_overlap interpolate interpolate_mode alpha_scheduler kernel_radius_scheduler
       algorithm engine_looping frame_seq corr_map step timestep =
     (if frame_seq = [] then Inl IndexError
      else if alpha_scheduler step timestep = 0 then Inr frame_seq
      else
        err_bind (resized_back interpolate interpolate_mode alpha_scheduler
                    kernel_radius_scheduler algorithm engine_looping frame_seq corr_map step
                    timestep)
          (\<lambda>ovlp_seq.
             if f_height (hd frame_seq) = 0 then Inl ZeroDivisionError
             else if length ovlp_seq < length frame_seq then Inl IndexError
             else err_map (\<lambda>i. where_nonzero (ovlp_seq ! i) (frame_seq ! i))
                    [0..<length frame_seq]))"

section \<open>Concrete inputs\<close>

text \<open>
  A frame of one batch entry, one channel and one pixel, and the spec's scenario: three
  such frames and a map with one id that occurs at position \<open>(0, 0)\<close> of frames 0, 1, 2.
\<close>

definition pixel_frame :: "real \<Rightarrow> frame" where
  "pixel_frame v =
     \<lparr>f_batch = 1, f_channels = 1, f_height = 1, f_width = 1, f_data = (\<lambda>b c y x. v)\<rparr>"

definition scenario_map :: "nat correspondence_map" where
  "scenario_map =
     \<lparr>c_Map = [(0, [((0, 0), 0), ((0, 0), 1), ((0, 0), 2)])],
      c_height = 1, c_width = 1, c_size = (1, 1), c_len = 1\<rparr>"

text \<open>A map over two frames in which each of two ids occurs once.\<close>

definition singleton_map :: "nat correspondence_map" where
  "singleton_map =
     \<lparr>c_Map = [(0, [((0, 0), 0)]), (1, [((0, 0), 1)])],
      c_height = 1, c_width = 1, c_size = (1, 1), c_len = 2\<rparr>"

text \<open>
  A frame of one row and two columns, and two maps over two such frames that hold the same
  two ids in the two possible orders: \<open>A\<close> at column 0 and \<open>B\<close> at column 1 of both frames.
\<close>

definition row_frame :: "real \<Rightarrow> real \<Rightarrow> frame" where
  "row_frame l r =
     \<lparr>f_batch = 1, f_channels = 1, f_height = 1, f_width = 2,
      f_data = (\<lambda>b c y x. if x = 0 then l else r)\<rparr>"

definition map_AB :: "string correspondence_map" where
  "map_AB =
     \<lparr>c_Map = [(''A'', [((0, 0), 0), ((0, 0), 1)]), (''B'', [((0, 1), 0), ((0, 1), 1)])],
      c_height = 1, c_width = 2, c_size = (2, 1), c_len = 2\<rparr>"

definition map_BA :: "string correspondence_map" where
  "map_BA =
     \<lparr>c_Map = [(''B'', [((0, 1), 0), ((0, 1), 1)]), (''A'', [((0, 0), 0), ((0, 0), 1)])],
      c_height = 1, c_width = 2, c_size = (2, 1), c_len = 2\<rparr>"

text \<open>
  A stand-in for \<open>F.interpolate\<close> in concrete runs: resizing a frame to the size it already
  has returns the frame; no other size is supported.
\<close>

definition same_size_interpolate :: interpolation where
  "same_size_interpolate latents new_size interpolate_mode ac =
     (if new_size = (f_height latents, f_width latents) then Inr latents else Inl RuntimeError)"

text \<open>A map over two one-pixel frames with one id that occurs in both.\<close>

definition pair_map :: "nat correspondence_map" where
  "pair_map =
     \<lparr>c_Map = [(0, [((0, 0), 0), ((0, 0), 1)])],
      c_height = 1, c_width = 1, c_size = (1, 1), c_len = 1\<rparr>"

section \<open>The similarity-weighted consensus kernel\<close>

text \<open>
  Taichi ndarrays of three and of two axes: the shape and the elements. The identity maps
  have shape \<open>(b, h*w, 4)\<close>, the values and the output placeholder \<open>(b, cells, channels)\<close>,
  the contributions \<open>(b, h*w)\<close>. Floating-point values are modelled as reals; the identity
  components are only compared.
\<close>

record 'a ndarray3 =
  shape0 :: nat
  shape1 :: nat
  shape2 :: nat
  elem :: "nat \<Rightarrow> nat \<Rightarrow> nat \<Rightarrow> 'a"

record 'a ndarray2 =
  cshape0 :: nat
  cshape1 :: nat
  celem :: "nat \<Rightarrow> nat \<Rightarrow> 'a"

text \<open>\<open>_check_values_equal\<close>: 1 when the two tuples agree in every component, else 0.\<close>

definition check_values_equal :: "'a ndarray3 \<Rightarrow> nat \<Rightarrow> nat \<times> nat \<Rightarrow> nat \<times> nat \<Rightarrow> int" where
  "check_values_equal values value_len index_a index_b =
     fold (\<lambda>i equal.
             if elem values (fst index_a) (snd index_a) i \<noteq> elem values (fst index_b) (snd index_b) i
             then 0 else equal)
       [0..<value_len] 1"

text \<open>
  \<open>_get_similarity\<close>: over all pairs of a pixel of the target cell and a pixel of the
  compared cell, the sum of the product of the two contributions and the equality flag.
\<close>

definition get_similarity ::
  "'a ndarray3 \<Rightarrow> nat \<times> nat \<Rightarrow> nat \<times> nat \<Rightarrow> nat \<Rightarrow> real ndarray2 \<Rightarrow> real" where
  "get_similarity id_flatten_maps target_start compare_target_start cell_contains_pixel
       contributions =
     (let target_start_pixel_space = snd target_start * cell_contains_pixel;
          compare_start_pixel_space = snd compare_target_start * cell_contains_pixel
      in fold (\<lambda>x result.
           fold (\<lambda>i result.
                   result
                   + celem contributions (fst compare_target_start) i
                     * celem contributions (fst target_start) x
                     * real_of_int
                         (check_values_equal id_flatten_maps (shape2 id_flatten_maps)
                            (fst target_start, x) (fst compare_target_start, i)))
             [compare_start_pixel_space ..< compare_start_pixel_space + cell_contains_pixel]
             result)
         [target_start_pixel_space ..< target_start_pixel_space + cell_contains_pixel] 0)"

text \<open>An in-place write of one element.\<close>

definition store3 :: "real ndarray3 \<Rightarrow> nat \<times> nat \<Rightarrow> nat \<Rightarrow> real \<Rightarrow> real ndarray3" where
  "store3 a index i v =
     a\<lparr>elem := (\<lambda>b j c. if b = fst index \<and> j = snd index \<and> c = i then v else elem a b j c)\<rparr>"

text \<open>\<open>_sum_up_values\<close>: \<open>new_values[to] += values[from] * multiplier\<close>, channel by channel.\<close>

definition sum_up_values ::
  "real ndarray3 \<Rightarrow> real ndarray3 \<Rightarrow> nat \<Rightarrow> nat \<times> nat \<Rightarrow> nat \<times> nat \<Rightarrow> real \<Rightarrow> real ndarray3"
  where
  "sum_up_values values new_values value_len from_index to_new_value_index multiplier =
     fold (\<lambda>i nv.
             store3 nv to_new_value_index i
               (elem nv (fst to_new_value_index) (snd to_new_value_index) i
                + elem values (fst from_index) (snd from_index) i * multiplier))
       [0..<value_len] new_values"

text \<open>\<open>_mult_values\<close>: \<open>values[index] *= multiplier\<close>, channel by channel.\<close>

definition mult_values :: "real ndarray3 \<Rightarrow> nat \<times> nat \<Rightarrow> nat \<Rightarrow> real \<Rightarrow> real ndarray3" where
  "mult_values values index value_len multiplier =
     fold (\<lambda>i vs. store3 vs index i (elem vs (fst index) (snd index) i * multiplier))
       [0..<value_len] values"

text \<open>\<open>ti.ndrange(m, n)\<close>: all index pairs, the first index outermost.\<close>

definition ndrange :: "nat \<Rightarrow> nat \<Rightarrow> (nat \<times> nat) list" where
  "ndrange m n = List.product [0..<m] [0..<n]"

text \<open>
  \<open>_cell_values_overlap\<close> up to its last line: the accumulated weight \<open>total_sim\<close>, which
  starts at \<open>1.0\<close>, and the placeholder after the target cell's own values and the weighted
  values of every other cell have been added to the target cell's slot.
\<close>

definition cell_accumulate ::
  "'a ndarray3 \<Rightarrow> real ndarray3 \<Rightarrow> real ndarray3 \<Rightarrow> nat \<times> nat \<Rightarrow> nat \<Rightarrow> real ndarray2
     \<Rightarrow> real \<times> real ndarray3" where
  "cell_accumulate id_flatten_maps origin_values new_values index cell_contains_pixel
       contributions =
     fold (\<lambda>(b, i) (total_sim, nv).
             if b = fst index \<and> i = snd index then (total_sim, nv)
             else
               let sim = get_similarity id_flatten_maps (fst index, snd index) (b, i)
                           cell_contains_pixel contributions
               in (total_sim + sim,
                   sum_up_values origin_values nv (shape2 origin_values) (b, i) index sim))
       (ndrange (shape0 origin_values) (shape1 origin_values))
       (1, sum_up_values origin_values new_values (shape2 origin_values) index index 1)"

text \<open>\<open>_cell_values_overlap\<close>: the accumulation, then the division by the weight.\<close>

definition cell_values_overlap ::
  "'a ndarray3 \<Rightarrow> real ndarray3 \<Rightarrow> real ndarray3 \<Rightarrow> nat \<times> nat \<Rightarrow> nat \<Rightarrow> real ndarray2
     \<Rightarrow> real ndarray3" where
  "cell_values_overlap id_flatten_maps origin_values new_values index cell_contains_pixel
       contributions =
     (let (total_sim, nv) =
            cell_accumulate id_flatten_maps origin_values new_values index cell_contains_pixel
              contributions
      in mult_values nv index (shape2 origin_values) (1 / total_sim))"

text \<open>
  The kernel \<open>taichi_cells_overlap\<close>. Its loop over the cells is parallel in Taichi; every
  iteration writes only the slot of its own cell and reads only the inputs and that slot,
  so the iterations are run here one after the other.
\<close>

definition taichi_cells_overlap ::
  "'a ndarray3 \<Rightarrow> real ndarray3 \<Rightarrow> real ndarray3 \<Rightarrow> real ndarray2 \<Rightarrow> real ndarray3" where
  "taichi_cells_overlap id_flatten_maps origin_values new_values contributions =
     (let cell_contains_pixel = shape1 id_flatten_maps div shape1 origin_values
      in fold (\<lambda>(b, i) nv.
                 cell_values_overlap id_flatten_maps origin_values nv (b, i)
                   cell_contains_pixel contributions)
           (ndrange (shape0 origin_values) (shape1 origin_values)) new_values)"

text \<open>Concrete arrays: all contributions 1, one identity tuple everywhere, two cells, zeros.\<close>

definition ones2 :: "nat \<Rightarrow> nat \<Rightarrow> real ndarray2" where
  "ones2 m n = \<lparr>cshape0 = m, cshape1 = n, celem = (\<lambda>b x. 1)\<rparr>"

definition same_ids :: "nat \<Rightarrow> nat \<Rightarrow> nat ndarray3" where
  "same_ids m n = \<lparr>shape0 = m, shape1 = n, shape2 = 4, elem = (\<lambda>b x k. Suc k)\<rparr>"

definition two_cells :: "real \<Rightarrow> real \<Rightarrow> real ndarray3" where
  "two_cells u v = \<lparr>shape0 = 1, shape1 = 2, shape2 = 1, elem = (\<lambda>b i c. if i = 0 then u else v)\<rparr>"

definition zeros3 :: "nat \<Rightarrow> nat \<Rightarrow> nat \<Rightarrow> real ndarray3" where
  "zeros3 m n k = \<lparr>shape0 = m, shape1 = n, shape2 = k, elem = (\<lambda>b i c. 0)\<rparr>"

subsection \<open>Notions used to state what the kernel computes\<close>

text \<open>The pixels of cell \<open>i\<close>, the cells other than the target, one step of the accumulation,
  and the accumulated weight written as a sum.\<close>

definition pixels :: "nat \<Rightarrow> nat \<Rightarrow> nat list" where
  "pixels i cpp = [i * cpp ..< i * cpp + cpp]"

definition others :: "nat \<times> nat \<Rightarrow> (nat \<times> nat) list \<Rightarrow> (nat \<times> nat) list" where
  "others idx ps = filter (\<lambda>p. p \<noteq> idx) ps"

definition acc_step ::
  "'a ndarray3 \<Rightarrow> real ndarray3 \<Rightarrow> nat \<times> nat \<Rightarrow> nat \<Rightarrow> real ndarray2
    \<Rightarrow> nat \<times> nat \<Rightarrow> real \<times> real ndarray3 \<Rightarrow> real \<times> real ndarray3" where
  "acc_step ids vals idx cpp contrib =
     (\<lambda>(b, i) (total_sim, nv).
             if b = fst idx \<and> i = snd idx then (total_sim, nv)
             else
               let sim = get_similarity ids (fst idx, snd idx) (b, i) cpp contrib
               in (total_sim + sim,
                   sum_up_values vals nv (shape2 vals) (b, i) idx sim))"

definition total_sim_of ::
  "'a ndarray3 \<Rightarrow> real ndarray3 \<Rightarrow> nat \<times> nat \<Rightarrow> nat \<Rightarrow> real ndarray2 \<Rightarrow> real" where
  "total_sim_of ids vals idx cpp contrib =
     1 + (\<Sum>p\<leftarrow>others idx (ndrange (shape0 vals) (shape1 vals)). get_similarity ids idx p cpp contrib)"

section \<open>Notions used to state what the pass computes\<close>

text \<open>
  The index triples \<open>(frame, row, column)\<close> of an occurrence list, in the order of the three
  traces that \<open>Overlap.__call__\<close> unzips from it.
\<close>

definition trace_points :: "occurrence list \<Rightarrow> (int \<times> int \<times> int) list" where
  "trace_points v = zip (map snd v) (zip (map fst (map fst v)) (map snd (map fst v)))"

text \<open>
  The position of an occurrence with nonnegative indices, and the occurrences that lie
  inside a stack of \<open>n_frames\<close> frames of height \<open>h\<close> and width \<open>w\<close>.
\<close>

definition position :: "occurrence \<Rightarrow> nat \<times> nat \<times> nat" where
  "position occ = (case occ of ((y, x), f) \<Rightarrow> (nat f, nat y, nat x))"

definition in_view :: "occurrence \<Rightarrow> bool" where
  "in_view occ = (case occ of ((y, x), f) \<Rightarrow> 0 \<le> f \<and> 0 \<le> y \<and> 0 \<le> x)"

definition inside :: "nat \<Rightarrow> nat \<Rightarrow> nat \<Rightarrow> occurrence \<Rightarrow> bool" where
  "inside n_frames h w occ =
     (case occ of ((y, x), f) \<Rightarrow>
        0 \<le> f \<and> f < int n_frames \<and> 0 \<le> y \<and> y < int h \<and> 0 \<le> x \<and> x < int w)"

text \<open>The occurrences of the ids that the pass blends: those with other than one occurrence.\<close>

definition multi :: "occurrence list list \<Rightarrow> occurrence list" where
  "multi vs = concat (filter (\<lambda>v. length v \<noteq> 1) vs)"

text \<open>The writes of one scatter, in sequence.\<close>

definition scatter :: "tensor \<Rightarrow> (nat \<times> nat \<times> nat) list \<Rightarrow> block list \<Rightarrow> heap \<Rightarrow> heap" where
  "scatter t ps vals h = fold (\<lambda>(p, v) h'. write_block h' t p v) (zip ps vals) h"

text \<open>
  What one iteration of the loop computes from the heap it starts on (lines 131 to 141):
  the neighbourhood averages, and the consensus blocks that the algorithm returns for them.
\<close>

definition neighbour_average ::
  "heap \<Rightarrow> tensor \<Rightarrow> int \<Rightarrow> occurrence list \<Rightarrow> py_error + block list" where
  "neighbour_average h frame_seq_stack kernel_radius v_info =
     err_bind (get_extended_traces kernel_radius (map snd v_info) (map snd (map fst v_info))
                 (map fst (map fst v_info)) (int (dim_W frame_seq_stack))
                 (int (dim_H frame_seq_stack)))
       (\<lambda>(efs, eys, exs).
          err_bind (index_get_windows h frame_seq_stack efs eys exs) mean_dim1)"

definition consensus ::
  "overlap_algorithm \<Rightarrow> heap \<Rightarrow> tensor \<Rightarrow> int \<Rightarrow> occurrence list \<Rightarrow> py_error + block list"
  where
  "consensus algorithm h frame_seq_stack kernel_radius v_info =
     err_bind (neighbour_average h frame_seq_stack kernel_radius v_info)
       (\<lambda>avg. Inr (algorithm avg (map snd v_info) (map snd (map fst v_info))
                     (map fst (map fst v_info))))"

text \<open>
  The consensus blocks of the \<open>k\<close>-th id of the map in a pass: the loop is run over the ids
  before it, and the consensus is computed on the heap that they leave.
\<close>

definition pass_consensus ::
  "scheduler \<Rightarrow> scheduler \<Rightarrow> overlap_algorithm \<Rightarrow> bool \<Rightarrow> frame list
     \<Rightarrow> 'k correspondence_map \<Rightarrow> int option \<Rightarrow> real option \<Rightarrow> nat
     \<Rightarrow> py_error + block list" where
  "pass_consensus alpha_scheduler kernel_radius_scheduler algorithm engine_looping frame_seq
       corr_map step timestep k =
     (let (h, frame_seq_stack) = torch_stack empty_heap frame_seq;
          frame_seq_stack_copy = detach frame_seq_stack;
          alpha = alpha_scheduler step timestep;
          kernel_radius = overlap_kernel_radius kernel_radius_scheduler step timestep;
          progress_slice = (if engine_looping then None else Some (c_len corr_map div 100));
          vs = map snd (c_Map corr_map)
      in err_bind (overlap_loop algorithm alpha kernel_radius progress_slice frame_seq_stack
                     frame_seq_stack_copy (take k vs) h)
           (\<lambda>hk. consensus algorithm hk frame_seq_stack kernel_radius (vs ! k)))"

section \<open>Theorems\<close>

subsection \<open>Constructors\<close>

lemma bind_positional_error: "bind_positional names args = Inl e \<Longrightarrow> e = TypeError"
  by (induction names args rule: bind_positional.induct) (auto split: sum.splits)

lemma bind_keywords_error: "bind_keywords names bound kws = Inl e \<Longrightarrow> e = TypeError"
  by (induction names bound kws rule: bind_keywords.induct) (auto split: if_splits)

lemma fill_defaults_error: "fill_defaults ps bound = Inl e \<Longrightarrow> e = TypeError"
  by (induction ps bound rule: fill_defaults.induct) (auto split: option.splits sum.splits)

lemma bind_call_error: "bind_call ps args kwargs = Inl e \<Longrightarrow> e = TypeError"
  by (auto simp: bind_call_def split: sum.splits
      dest: bind_positional_error bind_keywords_error fill_defaults_error)

lemma Overlap_init_rejects_decay:
  "Overlap_init []
     [(''alpha_scheduler'', a), (''corr_map_decay_scheduler'', cmd),
      (''kernel_radius_scheduler'', k), (''algorithm'', alg), (''verbose'', v)]
   = Inl TypeError"
  by (simp add: Overlap_init_def bind_call_def Overlap_params_def)

text \<open>
  C10. Every call of the \<open>VAEOverlap\<close> constructor, whatever positional and keyword
  arguments it is given, raises TypeError: either the arguments do not bind to its own
  parameters, or they do and the call of the base initializer with the keyword
  \<open>corr_map_decay_scheduler\<close> is rejected. No \<open>VAEOverlap\<close> object is ever built.
\<close>

theorem VAEOverlap_init_TypeError: "VAEOverlap_init args kwargs = Inl TypeError"
proof (cases "bind_call (VAEOverlap_params :: 'a params) args kwargs")
  case (Inl e)
  then show ?thesis
    by (simp add: VAEOverlap_init_def bind_call_error)
next
  case (Inr vs)
  then show ?thesis
    by (simp add: VAEOverlap_init_def Overlap_init_rejects_decay split: list.splits)
qed

subsection \<open>Corner alignment\<close>

text \<open>
  C8 (as stated, refuted). The claim has corner alignment enabled for the smooth modes;
  for \<open>bilinear\<close> the adapter passes \<open>False\<close>.
\<close>

theorem align_corners_bilinear_not_enabled:
  "align_corners ''bilinear'' = Some False \<and> align_corners ''bilinear'' \<noteq> Some True"
  by (simp add: align_corners_def)

text \<open>
  C8 (amended). Corner alignment is never enabled by the resize adapter: the argument is
  \<open>False\<close> for each of the smooth modes linear, bilinear, bicubic and trilinear, and it is
  left unset (\<open>None\<close>) for the nearest family, as for every other mode.
\<close>

theorem align_corners_never_enabled:
  "align_corners ''linear'' = Some False \<and> align_corners ''bilinear'' = Some False \<and>
   align_corners ''bicubic'' = Some False \<and> align_corners ''trilinear'' = Some False \<and>
   align_corners ''nearest'' = None \<and> align_corners ''nearest-exact'' = None \<and>
   align_corners interpolate_mode \<noteq> Some True \<and>
   (align_corners interpolate_mode = None) =
     (interpolate_mode \<notin> {''linear'', ''bilinear'', ''bicubic'', ''trilinear''})"
  by (simp add: align_corners_def)

subsection \<open>Kernel radius\<close>

lemma py_int_truncates:
  "\<bar>real_of_int (py_int x)\<bar> \<le> \<bar>x\<bar> \<and> \<bar>x - real_of_int (py_int x)\<bar> < 1"
proof (cases "0 \<le> x")
  case True
  then have "0 \<le> \<lfloor>x\<rfloor>" by simp
  with True show ?thesis by (simp add: py_int_def) linarith
next
  case False
  then have "\<lceil>x\<rceil> \<le> 0" by (simp add: ceiling_le_iff)
  with False show ?thesis by (simp add: py_int_def) linarith
qed

lemma py_int_nonneg_iff: "(0 \<le> py_int x) = (- 1 < x)"
proof (cases "0 \<le> x")
  case True
  then show ?thesis by (simp add: py_int_def)
next
  case False
  then show ?thesis by (simp add: py_int_def le_ceiling_iff)
qed

text \<open>
  C7 (as stated, refuted). A kernel-radius scheduler that returns \<open>-2.5\<close> gives the radius
  \<open>-2\<close> inside overlap: the value is truncated, not clamped.
\<close>

theorem kernel_radius_negative:
  "overlap_kernel_radius (constant_scheduler (- 5 / 2)) None None = - 2 \<and>
   overlap_kernel_radius (constant_scheduler (- 5 / 2)) None None < 0"
  by (simp add: overlap_kernel_radius_def constant_scheduler_def py_int_def)

text \<open>
  C7 (amended). The radius used inside overlap is the scheduler's output truncated toward
  zero to an integer: it is no larger in magnitude than the output and less than one away
  from it. No clamp is applied, so the radius is nonnegative exactly when the output is
  greater than \<open>-1\<close>.
\<close>

theorem kernel_radius_truncated:
  "\<bar>real_of_int (overlap_kernel_radius sched step timestep)\<bar> \<le> \<bar>sched step timestep\<bar> \<and>
   \<bar>sched step timestep - real_of_int (overlap_kernel_radius sched step timestep)\<bar> < 1 \<and>
   (0 \<le> overlap_kernel_radius sched step timestep) = (- 1 < sched step timestep)"
  unfolding overlap_kernel_radius_def using py_int_truncates py_int_nonneg_iff by blast

subsection \<open>Extended traces\<close>

lemma length_window: "0 \<le> R \<Longrightarrow> length (window R pos max_pos) = nat (2 * R + 1)"
  by (simp add: window_def) 

lemma nth_window:
  "k < nat (2 * R + 1) \<Longrightarrow>
   window R pos max_pos ! k = clamp (pos + (int k - R)) 0 (max_pos - 1)"
  by (simp add: window_def) 

lemma get_extended_traces_equal_lengths:
  assumes "length fs = length ys" and "length xs = length ys"
  shows "get_extended_traces R fs xs ys max_x max_y =
     Inr (map (\<lambda>f. Window (replicate (length (window R 0 max_y)) f)) fs,
          map (\<lambda>y. Window (window R y max_y)) ys,
          map (\<lambda>x. Window (window R x max_x)) xs)"
  using assms by (simp add: get_extended_traces_def)

text \<open>
  C6. For a radius \<open>R \<ge> 0\<close> and traces of equal length, the extended trace has, at every
  trace point, windows of exactly \<open>2R + 1\<close> entries; the \<open>k\<close>-th entry, \<open>d = k - R\<close> running
  through \<open>[-R, R]\<close>, is the row and the column both offset by \<open>d\<close> and clamped to
  \<open>[0, height - 1]\<close> and \<open>[0, width - 1]\<close>, and the frame index of the point at every entry.
\<close>

theorem get_extended_traces_windows:
  assumes "0 \<le> R" and "length fs = length ys" and "length xs = length ys"
  shows "\<exists>efs eys exs.
     get_extended_traces R fs xs ys max_x max_y = Inr (efs, eys, exs) \<and>
     length efs = length ys \<and> length eys = length ys \<and> length exs = length ys \<and>
     (\<forall>idx < length ys. \<exists>fw yw xw.
        efs ! idx = Window fw \<and> eys ! idx = Window yw \<and> exs ! idx = Window xw \<and>
        length fw = nat (2 * R + 1) \<and> length yw = nat (2 * R + 1) \<and>
        length xw = nat (2 * R + 1) \<and>
        (\<forall>k < nat (2 * R + 1).
           fw ! k = fs ! idx \<and>
           yw ! k = clamp (ys ! idx + (int k - R)) 0 (max_y - 1) \<and>
           xw ! k = clamp (xs ! idx + (int k - R)) 0 (max_x - 1)))"
  using assms
  by (simp add: get_extended_traces_equal_lengths length_window nth_window)

theorem get_extended_traces_windows_witness:
  "\<exists>efs eys exs.
     get_extended_traces 1 [7] [1] [0] 2 1 = Inr (efs, eys, exs) \<and>
     (\<exists>fw yw xw.
        efs ! 0 = Window fw \<and> eys ! 0 = Window yw \<and> exs ! 0 = Window xw \<and>
        length fw = 3 \<and> length yw = 3 \<and> length xw = 3 \<and>
        fw ! 2 = 7 \<and> yw ! 2 = 0 \<and> xw ! 2 = 1 \<and> xw ! 0 = 0)"
proof -
  have "(0::int) \<le> 1" and "length [7::int] = length [0::int]"
    and "length [1::int] = length [0::int]"
    by simp_all
  from get_extended_traces_windows [OF this, of 2 1]
  obtain efs eys exs where
    run: "get_extended_traces 1 [7] [1] [0] 2 1 = Inr (efs, eys, exs)" and
    pts: "\<forall>idx < length [0::int]. \<exists>fw yw xw.
        efs ! idx = Window fw \<and> eys ! idx = Window yw \<and> exs ! idx = Window xw \<and>
        length fw = nat (2 * 1 + 1) \<and> length yw = nat (2 * 1 + 1) \<and>
        length xw = nat (2 * 1 + 1) \<and>
        (\<forall>k < nat (2 * 1 + 1).
           fw ! k = [7] ! idx \<and>
           yw ! k = clamp ([0] ! idx + (int k - 1)) 0 (1 - 1) \<and>
           xw ! k = clamp ([1] ! idx + (int k - 1)) 0 (2 - 1))"
    by blast
  from pts obtain fw yw xw where
    w: "efs ! 0 = Window fw" "eys ! 0 = Window yw" "exs ! 0 = Window xw"
       "length fw = nat (2 * 1 + 1)" "length yw = nat (2 * 1 + 1)"
       "length xw = nat (2 * 1 + 1)" and
    k: "\<forall>k < nat (2 * 1 + 1).
           fw ! k = [7] ! 0 \<and>
           yw ! k = clamp ([0] ! 0 + (int k - 1)) 0 (1 - 1) \<and>
           xw ! k = clamp ([1] ! 0 + (int k - 1)) 0 (2 - 1)"
    by auto
  from k have "fw ! 2 = 7" "yw ! 2 = 0" "xw ! 2 = 1" "xw ! 0 = 0"
    by (simp_all add: clamp_def)
  with run w show ?thesis
    by simp
qed

subsection \<open>The overlap pass\<close>

lemmas overlap_eval =
  overlap_def overlap_vertex_def torch_stack_def detach_def empty_heap_def shape_def
  overlap_kernel_radius_def constant_scheduler_def py_int_def get_extended_traces_def
  window_def clamp_def index_get_def index_put_def index_get_windows_def norm_pos_def
  norm_index_def read_block_def write_block_def mean_dim1_def mean_block_def blend_seq_def
  blend_def value_of_def stacked_def mean_consensus_def upto_rec1 Let_def eval_nat_numeral

lemma overlap_loop_singletons:
  assumes "list_all (\<lambda>v_info. length v_info = 1) vs" and "progress_slice \<noteq> Some 0 \<or> vs = []"
  shows "overlap_loop algorithm alpha R progress_slice st cp vs h = Inr h"
  using assms by (induction vs) (auto simp: overlap_vertex_def)

lemma value_of_torch_stack:
  "value_of (fst (torch_stack empty_heap frame_seq))
     (detach (snd (torch_stack empty_heap frame_seq))) = stacked_value frame_seq"
  by (simp add: value_of_def torch_stack_def detach_def stacked_value_def)

text \<open>
  The pass on a map in which every id has exactly one occurrence, where its diagnostics do
  not raise (the engine is looping, or a timestep is given and the map is empty or has at
  least 100 ids): on a non-empty stack of frames of one shape that fits the map, the pass
  returns the stacked input itself, and no position is rewritten.
\<close>

theorem overlap_singletons_identity:
  assumes nonempty: "frame_seq \<noteq> []"
    and shapes: "list_all (\<lambda>fr. shape fr = shape (hd frame_seq)) frame_seq"
    and fits: "f_height (hd frame_seq) = c_height corr_map"
      "f_width (hd frame_seq) = c_width corr_map"
    and singletons: "list_all (\<lambda>(k, v_info). length v_info = 1) (c_Map corr_map)"
    and quiet: "engine_looping \<or>
      (timestep \<noteq> None \<and> (c_Map corr_map = [] \<or> 100 \<le> c_len corr_map))"
  shows "overlap alpha_scheduler kernel_radius_scheduler algorithm engine_looping frame_seq
           corr_map step timestep = Inr (stacked_value frame_seq)"
proof -
  obtain fr0 rest where fs: "frame_seq = fr0 # rest"
    using nonempty by (cases frame_seq) auto
  let ?ps = "if engine_looping then None else Some (c_len corr_map div 100)"
  have ones: "list_all (\<lambda>v_info. length v_info = 1) (map snd (c_Map corr_map))"
    using singletons by (induction "c_Map corr_map") (auto simp: list_all_iff)
  have ps: "?ps \<noteq> Some 0 \<or> map snd (c_Map corr_map) = []"
    using quiet by auto
  have loop: "overlap_loop algorithm (alpha_scheduler step timestep)
       (overlap_kernel_radius kernel_radius_scheduler step timestep) ?ps
       (snd (torch_stack empty_heap frame_seq))
       (detach (snd (torch_stack empty_heap frame_seq)))
       (map snd (c_Map corr_map)) (fst (torch_stack empty_heap frame_seq))
     = Inr (fst (torch_stack empty_heap frame_seq))"
    by (rule overlap_loop_singletons [OF ones ps])
  have tp: "\<not> (\<not> engine_looping \<and> timestep = None)"
    using quiet by auto
  show ?thesis
    using fits shapes tp loop value_of_torch_stack [of frame_seq]
    unfolding overlap_def fs
    by (simp add: Let_def case_prod_beta del: overlap_loop.simps)
qed

theorem overlap_singletons_identity_witness:
  "overlap (constant_scheduler 1) (constant_scheduler 0) mean_consensus True
     [pixel_frame 10, pixel_frame 20] singleton_map None None
   = Inr (stacked_value [pixel_frame 10, pixel_frame 20])"
  by (rule overlap_singletons_identity)
     (simp_all add: singleton_map_def pixel_frame_def shape_def)

text \<open>
  C2 (the code at the failing input). Two one-pixel frames and a map of two ids with one
  occurrence each, outside the engine loop. With a timestep the progress bar reduces the
  iteration number by \<open>len(corr_map) // 100 = 0\<close> before the loop reaches the branch for
  single occurrences, and the call raises ZeroDivisionError; without a timestep the log
  line that formats it raises TypeError. The claim has the pass return its input, as the
  same call does inside the engine loop.
\<close>

theorem overlap_singletons_progress_bar_raises:
  "overlap (constant_scheduler 1) (constant_scheduler 0) mean_consensus False
     [pixel_frame 10, pixel_frame 20] singleton_map None (Some (1 / 2)) = Inl ZeroDivisionError \<and>
   overlap (constant_scheduler 1) (constant_scheduler 0) mean_consensus False
     [pixel_frame 10, pixel_frame 20] singleton_map None None = Inl TypeError \<and>
   overlap (constant_scheduler 1) (constant_scheduler 0) mean_consensus True
     [pixel_frame 10, pixel_frame 20] singleton_map None (Some (1 / 2))
     = Inr (stacked_value [pixel_frame 10, pixel_frame 20])"
proof (intro conjI)
  show "overlap (constant_scheduler 1) (constant_scheduler 0) mean_consensus False
     [pixel_frame 10, pixel_frame 20] singleton_map None (Some (1 / 2)) = Inl ZeroDivisionError"
    by (simp add: overlap_def overlap_vertex_def shape_def torch_stack_def detach_def
        pixel_frame_def singleton_map_def Let_def)
  show "overlap (constant_scheduler 1) (constant_scheduler 0) mean_consensus False
     [pixel_frame 10, pixel_frame 20] singleton_map None None = Inl TypeError"
    by (simp add: overlap_def overlap_vertex_def shape_def torch_stack_def detach_def
        pixel_frame_def singleton_map_def Let_def)
  show "overlap (constant_scheduler 1) (constant_scheduler 0) mean_consensus True
     [pixel_frame 10, pixel_frame 20] singleton_map None (Some (1 / 2))
     = Inr (stacked_value [pixel_frame 10, pixel_frame 20])"
    by (rule overlap_singletons_identity)
       (simp_all add: singleton_map_def pixel_frame_def shape_def)
qed

text \<open>
  C1 (the code at the failing input). Two frames \<open>[0, 3]\<close>, ids \<open>A\<close> at column 0 and \<open>B\<close> at
  column 1, radius 1, alpha 1, mean consensus. The windows read from the original frames
  average to 1 for \<open>A\<close> and to 2 for \<open>B\<close>, and a pass whose output stack is a copy returns
  \<open>(1, 2)\<close> for both orders of the map. The code returns \<open>(1, 7/3)\<close> when \<open>A\<close> comes first
  and \<open>(2/3, 2)\<close> when \<open>B\<close> comes first: the id processed second reads the value written
  for the first, and the result depends on the iteration order.
\<close>

theorem overlap_order_dependent:
  "(\<exists>out. overlap (constant_scheduler 1) (constant_scheduler 1) mean_consensus True
            [row_frame 0 3, row_frame 0 3] map_AB None None = Inr out \<and>
          v_data out 0 0 0 0 0 = 1 \<and> v_data out 0 0 0 0 1 = 7 / 3) \<and>
   (\<exists>out. overlap (constant_scheduler 1) (constant_scheduler 1) mean_consensus True
            [row_frame 0 3, row_frame 0 3] map_BA None None = Inr out \<and>
          v_data out 0 0 0 0 0 = 2 / 3 \<and> v_data out 0 0 0 0 1 = 2) \<and>
   (\<exists>out. overlap_on_copy (constant_scheduler 1) (constant_scheduler 1) mean_consensus True
            [row_frame 0 3, row_frame 0 3] map_AB None None = Inr out \<and>
          v_data out 0 0 0 0 0 = 1 \<and> v_data out 0 0 0 0 1 = 2) \<and>
   (\<exists>out. overlap_on_copy (constant_scheduler 1) (constant_scheduler 1) mean_consensus True
            [row_frame 0 3, row_frame 0 3] map_BA None None = Inr out \<and>
          v_data out 0 0 0 0 0 = 1 \<and> v_data out 0 0 0 0 1 = 2)"
  by (simp add: overlap_eval overlap_on_copy_def clone_def row_frame_def map_AB_def map_BA_def)

subsection \<open>The resize adapter\<close>


lemma err_bind_Inr_iff: "err_bind m f = Inr r \<longleftrightarrow> (\<exists>a. m = Inr a \<and> f a = Inr r)"
  by (cases m) auto

lemma err_map_length: "err_map f xs = Inr ys \<Longrightarrow> length ys = length xs"
  by (induction xs arbitrary: ys) (auto split: sum.splits)

lemma err_map_nth: "err_map f xs = Inr ys \<Longrightarrow> i < length xs \<Longrightarrow> f (xs ! i) = Inr (ys ! i)"
proof (induction xs arbitrary: ys i)
  case Nil
  then show ?case by simp
next
  case (Cons x xs)
  then show ?case by (cases i) (auto split: sum.splits)
qed

lemma err_map_total:
  "(\<And>x. x \<in> set xs \<Longrightarrow> \<exists>y. f x = Inr y) \<Longrightarrow> \<exists>ys. err_map f xs = Inr ys"
proof (induction xs)
  case Nil
  then show ?case by simp
next
  case (Cons x xs)
  then obtain y ys where "f x = Inr y" "err_map f xs = Inr ys"
    by (metis list.set_intros(1) list.set_intros(2))
  then show ?case by simp
qed

lemma overlap_frames:
  assumes "overlap a k alg el frame_seq cm step ts = Inr out"
  shows "v_T out = length frame_seq"
  using assms
  by (auto simp: overlap_def Let_def torch_stack_def detach_def value_of_def err_bind_Inr_iff
      split: list.splits if_splits)

lemma resized_back_length:
  assumes "resized_back ip mode a k alg el frame_seq cm step ts = Inr resized"
  shows "length resized = length frame_seq"
proof -
  obtain ovlp_seq ovlp_stack where
    1: "err_map (\<lambda>latents. ip latents (snd (c_size cm), fst (c_size cm)) mode (align_corners mode)) frame_seq = Inr ovlp_seq"
    and 2: "overlap a k alg el ovlp_seq cm step ts = Inr ovlp_stack"
    and 3: "err_map (\<lambda>latents. ip latents (f_height (hd frame_seq), f_width (hd frame_seq)) mode (align_corners mode)) (unstack ovlp_stack) = Inr resized"
    using assms by (auto simp: resized_back_def Let_def case_prod_beta err_bind_Inr_iff)
  have "length resized = length (unstack ovlp_stack)"
    using 3 by (rule err_map_length)
  also have "\<dots> = v_T ovlp_stack" by (simp add: unstack_def)
  also have "\<dots> = length ovlp_seq" using 2 by (rule overlap_frames)
  also have "\<dots> = length frame_seq" using 1 by (rule err_map_length)
  finally show ?thesis .
qed

lemma where_nonzero_same_shape:
  assumes "shape ovlp = shape original"
  shows "\<exists>fr. where_nonzero ovlp original = Inr fr \<and> shape fr = shape original \<and>
    (\<forall>b c y x. b < f_batch original \<longrightarrow> c < f_channels original \<longrightarrow> y < f_height original \<longrightarrow> x < f_width original \<longrightarrow>
       f_data fr b c y x = (if f_data ovlp b c y x \<noteq> 0 then f_data ovlp b c y x else f_data original b c y x))"
  using assms
  by (auto simp: where_nonzero_def shape_def broadcast_dim_def element_at_def bidx_def)

text \<open>
  C9. When the adapter blends (alpha is not 0) and the frames resized back have the shapes
  of the original frames, the adapter returns one frame for each input frame, and at every
  index of every frame the merged value is the resized-back blended value where that is
  not zero, and the original input value where it is exactly zero.
\<close>

theorem resize_overlap_merge:
  assumes nonempty: "frame_seq \<noteq> []"
    and alpha: "alpha_scheduler step timestep \<noteq> 0"
    and rb: "resized_back interpolate interpolate_mode alpha_scheduler
        kernel_radius_scheduler algorithm engine_looping frame_seq corr_map step timestep = Inr resized"
    and height: "f_height (hd frame_seq) \<noteq> 0"
    and shapes: "\<forall>j < length frame_seq. shape (resized ! j) = shape (frame_seq ! j)"
    and i: "i < length frame_seq"
    and pos: "b < f_batch (frame_seq ! i)" "c < f_channels (frame_seq ! i)"
      "y < f_height (frame_seq ! i)" "x < f_width (frame_seq ! i)"
  shows "\<exists>out. resize_overlap interpolate interpolate_mode alpha_scheduler
        kernel_radius_scheduler algorithm engine_looping frame_seq corr_map step timestep = Inr out \<and>
      length out = length frame_seq \<and>
      f_data (out ! i) b c y x =
        (if f_data (resized ! i) b c y x \<noteq> 0 then f_data (resized ! i) b c y x
         else f_data (frame_seq ! i) b c y x)"
proof -
  have len: "length resized = length frame_seq"
    using rb by (rule resized_back_length)
  have "\<exists>out. err_map (\<lambda>j. where_nonzero (resized ! j) (frame_seq ! j)) [0..<length frame_seq] = Inr out"
  proof (rule err_map_total)
    fix j assume "j \<in> set [0..<length frame_seq]"
    then have "shape (resized ! j) = shape (frame_seq ! j)" using shapes by simp
    from where_nonzero_same_shape [OF this]
    show "\<exists>fr. where_nonzero (resized ! j) (frame_seq ! j) = Inr fr" by blast
  qed
  then obtain out where
    out: "err_map (\<lambda>j. where_nonzero (resized ! j) (frame_seq ! j)) [0..<length frame_seq] = Inr out"
    by blast
  have run: "resize_overlap interpolate interpolate_mode alpha_scheduler
        kernel_radius_scheduler algorithm engine_looping frame_seq corr_map step timestep = Inr out"
    using nonempty alpha rb height len out by (simp add: resize_overlap_def)
  have lout: "length out = length frame_seq"
    using err_map_length [OF out] by simp
  have "where_nonzero (resized ! ([0..<length frame_seq] ! i)) (frame_seq ! ([0..<length frame_seq] ! i)) = Inr (out ! i)"
    using err_map_nth [OF out, of i] i by simp
  then have w: "where_nonzero (resized ! i) (frame_seq ! i) = Inr (out ! i)"
    using i by simp
  have "shape (resized ! i) = shape (frame_seq ! i)" using shapes i by simp
  from where_nonzero_same_shape [OF this] w pos
  have "f_data (out ! i) b c y x =
        (if f_data (resized ! i) b c y x \<noteq> 0 then f_data (resized ! i) b c y x
         else f_data (frame_seq ! i) b c y x)"
    by auto
  with run lout show ?thesis by blast
qed


theorem resize_overlap_merge_witness:
  "\<exists>out. resize_overlap same_size_interpolate ''nearest'' (constant_scheduler 1)
       (constant_scheduler 0) mean_consensus True [pixel_frame (- 10), pixel_frame 10]
       pair_map None None = Inr out \<and>
     length out = 2 \<and> f_data (out ! 0) 0 0 0 0 = - 10 \<and> f_data (out ! 1) 0 0 0 0 = 10"
proof -
  let ?fs = "[pixel_frame (- 10), pixel_frame 10]"
  have "\<exists>resized. resized_back same_size_interpolate ''nearest'' (constant_scheduler 1)
       (constant_scheduler 0) mean_consensus True ?fs pair_map None None = Inr resized \<and>
     shape (resized ! 0) = (1, 1, 1, 1) \<and> shape (resized ! 1) = (1, 1, 1, 1) \<and>
     f_data (resized ! 0) 0 0 0 0 = 0 \<and> f_data (resized ! 1) 0 0 0 0 = 0"
    by (simp add: resized_back_def same_size_interpolate_def pair_map_def pixel_frame_def
        unstack_def overlap_eval upt_rec [of 0] upt_rec [of 1])
  then obtain resized where
    rb: "resized_back same_size_interpolate ''nearest'' (constant_scheduler 1)
       (constant_scheduler 0) mean_consensus True ?fs pair_map None None = Inr resized" and
    sh: "shape (resized ! 0) = (1, 1, 1, 1)" "shape (resized ! 1) = (1, 1, 1, 1)" and
    z: "f_data (resized ! 0) 0 0 0 0 = 0" "f_data (resized ! 1) 0 0 0 0 = 0"
    by blast
  have shapes: "\<forall>j < length ?fs. shape (resized ! j) = shape (?fs ! j)"
    using sh by (simp add: pixel_frame_def shape_def less_Suc_eq)
  have a: "constant_scheduler 1 None None \<noteq> 0" by (simp add: constant_scheduler_def)
  have h: "f_height (hd ?fs) \<noteq> 0" by (simp add: pixel_frame_def)
  have ne: "?fs \<noteq> []" by simp
  from resize_overlap_merge [OF ne a rb h shapes, of 0 0 0 0 0]
  obtain out0 where o0: "resize_overlap same_size_interpolate ''nearest'' (constant_scheduler 1)
       (constant_scheduler 0) mean_consensus True ?fs pair_map None None = Inr out0"
     "length out0 = 2" "f_data (out0 ! 0) 0 0 0 0 = - 10"
    using z by (auto simp: pixel_frame_def)
  from resize_overlap_merge [OF ne a rb h shapes, of 1 0 0 0 0]
  obtain out1 where o1: "resize_overlap same_size_interpolate ''nearest'' (constant_scheduler 1)
       (constant_scheduler 0) mean_consensus True ?fs pair_map None None = Inr out1"
     "f_data (out1 ! 1) 0 0 0 0 = 10"
    using z by (auto simp: pixel_frame_def)
  from o0 o1 show ?thesis by auto
qed

subsection \<open>The consensus kernel\<close>


lemma fold_flag:
  "fold (\<lambda>i e. if P i then 0 else e) xs e0 = (if \<exists>i\<in>set xs. P i then (0::int) else e0)"
  by (induction xs arbitrary: e0) auto

lemma check_values_equal_iff:
  "check_values_equal vs len a b =
     (if \<forall>i<len. elem vs (fst a) (snd a) i = elem vs (fst b) (snd b) i then 1 else 0)"
  unfolding check_values_equal_def fold_flag by auto

lemma fold_add: "fold (\<lambda>x r. r + g x) xs r0 = r0 + sum_list (map g xs)" for r0 :: real
  by (induction xs arbitrary: r0) (auto simp: algebra_simps)


lemma get_similarity_sum:
  "get_similarity ids t cmp cpp contrib =
     (\<Sum>x\<leftarrow>pixels (snd t) cpp. \<Sum>i\<leftarrow>pixels (snd cmp) cpp.
        celem contrib (fst cmp) i * celem contrib (fst t) x
        * real_of_int (check_values_equal ids (shape2 ids) (fst t, x) (fst cmp, i)))"
  by (simp add: get_similarity_def Let_def fold_add pixels_def)

lemma elem_store3:
  "elem (store3 a idx i v) b j c = (if b = fst idx \<and> j = snd idx \<and> c = i then v else elem a b j c)"
  by (simp add: store3_def)

lemma elem_sum_up_values:
  "elem (sum_up_values vals nv len src dst m) b j c =
     (if b = fst dst \<and> j = snd dst \<and> c < len
      then elem nv b j c + elem vals (fst src) (snd src) c * m else elem nv b j c)"
proof (induction len)
  case 0
  then show ?case by (simp add: sum_up_values_def)
next
  case (Suc len)
  then show ?case
    by (auto simp: sum_up_values_def elem_store3 less_Suc_eq)
qed

lemma elem_mult_values:
  "elem (mult_values vs idx len m) b j c =
     (if b = fst idx \<and> j = snd idx \<and> c < len then elem vs b j c * m else elem vs b j c)"
proof (induction len)
  case 0
  then show ?case by (simp add: mult_values_def)
next
  case (Suc len)
  then show ?case
    by (auto simp: mult_values_def elem_store3 less_Suc_eq)
qed



lemma acc_step_apply:
  "acc_step ids vals idx cpp contrib p (ts, nv) =
     (if p = idx then (ts, nv)
      else (ts + get_similarity ids idx p cpp contrib,
            sum_up_values vals nv (shape2 vals) p idx (get_similarity ids idx p cpp contrib)))"
  by (cases p; cases idx) (simp add: acc_step_def Let_def)

lemma acc_fold_fst:
  "fst (fold (acc_step ids vals idx cpp contrib) ps (ts, nv)) =
     ts + (\<Sum>p\<leftarrow>others idx ps. get_similarity ids idx p cpp contrib)"
  by (induction ps arbitrary: ts nv) (simp_all add: others_def acc_step_apply)

lemma acc_fold_snd:
  "elem (snd (fold (acc_step ids vals idx cpp contrib) ps (ts, nv))) b j c =
     (if b = fst idx \<and> j = snd idx \<and> c < shape2 vals
      then elem nv b j c
           + (\<Sum>p\<leftarrow>others idx ps. elem vals (fst p) (snd p) c * get_similarity ids idx p cpp contrib)
      else elem nv b j c)"
proof (induction ps arbitrary: ts nv)
  case Nil
  then show ?case by (simp add: others_def)
next
  case (Cons p ps)
  show ?case
  proof (cases "p = idx")
    case True
    then show ?thesis
      by (simp add: others_def acc_step_apply Cons.IH [unfolded others_def])
  next
    case False
    let ?s = "get_similarity ids idx p cpp contrib"
    have "fold (acc_step ids vals idx cpp contrib) (p # ps) (ts, nv) =
          fold (acc_step ids vals idx cpp contrib) ps
            (ts + ?s, sum_up_values vals nv (shape2 vals) p idx ?s)"
      using False by (simp add: acc_step_apply)
    then show ?thesis
      using False
      by (simp add: Cons.IH elem_sum_up_values others_def)
  qed
qed

lemma cell_accumulate_fold:
  "cell_accumulate ids vals nv idx cpp contrib =
     fold (acc_step ids vals idx cpp contrib) (ndrange (shape0 vals) (shape1 vals))
       (1, sum_up_values vals nv (shape2 vals) idx idx 1)"
  by (simp add: cell_accumulate_def acc_step_def)


lemma fst_cell_accumulate:
  "fst (cell_accumulate ids vals nv idx cpp contrib) = total_sim_of ids vals idx cpp contrib"
  by (simp add: cell_accumulate_fold acc_fold_fst total_sim_of_def)

lemma elem_snd_cell_accumulate:
  "elem (snd (cell_accumulate ids vals nv idx cpp contrib)) b j c =
     (if b = fst idx \<and> j = snd idx \<and> c < shape2 vals
      then elem nv b j c + elem vals b j c
           + (\<Sum>p\<leftarrow>others idx (ndrange (shape0 vals) (shape1 vals)).
                elem vals (fst p) (snd p) c * get_similarity ids idx p cpp contrib)
      else elem nv b j c)"
  by (simp add: cell_accumulate_fold acc_fold_snd elem_sum_up_values)

lemma elem_cell_values_overlap:
  "elem (cell_values_overlap ids vals nv idx cpp contrib) b j c =
     (if b = fst idx \<and> j = snd idx \<and> c < shape2 vals
      then (elem nv b j c + elem vals b j c
            + (\<Sum>p\<leftarrow>others idx (ndrange (shape0 vals) (shape1 vals)).
                 elem vals (fst p) (snd p) c * get_similarity ids idx p cpp contrib))
           * (1 / total_sim_of ids vals idx cpp contrib)
      else elem nv b j c)"
  by (simp add: cell_values_overlap_def case_prod_beta elem_mult_values fst_cell_accumulate
      elem_snd_cell_accumulate)

lemma kernel_fold:
  assumes "distinct cs"
  shows "elem (fold (\<lambda>(b, i) nv. cell_values_overlap ids vals nv (b, i) cpp contrib) cs nv0) b j c =
     (if (b, j) \<in> set cs then elem (cell_values_overlap ids vals nv0 (b, j) cpp contrib) b j c
      else elem nv0 b j c)"
  using assms
proof (induction cs arbitrary: nv0)
  case Nil
  then show ?case by simp
next
  case (Cons p ps)
  then have d: "distinct ps" and np: "p \<notin> set ps" by auto
  show ?case
    using Cons.IH [OF d] np
    by (cases p) (auto simp: elem_cell_values_overlap)
qed

lemma distinct_ndrange: "distinct (ndrange m n)"
  by (simp add: ndrange_def distinct_product)

lemma set_ndrange: "set (ndrange m n) = {..<m} \<times> {..<n}"
  by (auto simp: ndrange_def)

lemma elem_taichi_cells_overlap:
  "elem (taichi_cells_overlap ids vals nv contrib) b j c =
     (if b < shape0 vals \<and> j < shape1 vals
      then elem (cell_values_overlap ids vals nv (b, j) (shape1 ids div shape1 vals) contrib) b j c
      else elem nv b j c)"
  by (simp add: taichi_cells_overlap_def Let_def kernel_fold [OF distinct_ndrange] set_ndrange)



lemma length_pixels: "length (pixels i cpp) = cpp"
  by (simp add: pixels_def)

lemma pixels_in_range:
  assumes "i < N" and "x \<in> set (pixels i (P div N))"
  shows "x < P"
proof -
  have "x < Suc i * (P div N)" using assms(2) by (simp add: pixels_def)
  also have "\<dots> \<le> N * (P div N)" using assms(1) by (intro mult_le_mono1) simp
  also have "\<dots> \<le> P" by simp
  finally show ?thesis .
qed

lemma check_values_equal_nonneg: "0 \<le> check_values_equal vs len a b"
  by (simp add: check_values_equal_iff)

lemma get_similarity_nonneg:
  assumes nonneg: "\<forall>b<cshape0 contrib. \<forall>x<cshape1 contrib. 0 \<le> celem contrib b x"
    and rows: "fst t < cshape0 contrib" "fst cmp < cshape0 contrib"
    and cols: "\<forall>x\<in>set (pixels (snd t) cpp). x < cshape1 contrib"
      "\<forall>x\<in>set (pixels (snd cmp) cpp). x < cshape1 contrib"
  shows "0 \<le> get_similarity ids t cmp cpp contrib"
  unfolding get_similarity_sum
proof (intro sum_list_nonneg)
  fix s assume "s \<in> set (map (\<lambda>x. \<Sum>i\<leftarrow>pixels (snd cmp) cpp.
        celem contrib (fst cmp) i * celem contrib (fst t) x
        * real_of_int (check_values_equal ids (shape2 ids) (fst t, x) (fst cmp, i)))
      (pixels (snd t) cpp))"
  then obtain x where x: "x \<in> set (pixels (snd t) cpp)" and
    s: "s = (\<Sum>i\<leftarrow>pixels (snd cmp) cpp.
        celem contrib (fst cmp) i * celem contrib (fst t) x
        * real_of_int (check_values_equal ids (shape2 ids) (fst t, x) (fst cmp, i)))"
    by auto
  have cx: "0 \<le> celem contrib (fst t) x" using nonneg rows(1) cols(1) x by blast
  show "0 \<le> s" unfolding s
  proof (intro sum_list_nonneg)
    fix u assume "u \<in> set (map (\<lambda>i. celem contrib (fst cmp) i * celem contrib (fst t) x
        * real_of_int (check_values_equal ids (shape2 ids) (fst t, x) (fst cmp, i)))
      (pixels (snd cmp) cpp))"
    then obtain i where i: "i \<in> set (pixels (snd cmp) cpp)" and
      u: "u = celem contrib (fst cmp) i * celem contrib (fst t) x
        * real_of_int (check_values_equal ids (shape2 ids) (fst t, x) (fst cmp, i))"
      by auto
    have ci: "0 \<le> celem contrib (fst cmp) i" using nonneg rows(2) cols(2) i by blast
    show "0 \<le> u" unfolding u using ci cx check_values_equal_nonneg [of ids "shape2 ids" "(fst t, x)" "(fst cmp, i)"]
      by simp
  qed
qed

text \<open>
  C5. For a target cell of the kernel, with contributions of the identity maps' shape that
  are all nonnegative: the accumulated weight is 1 (the self term) plus the similarities
  of the other cells, each of these similarities is nonnegative, and so the weight is at
  least 1 and the final division does not divide by zero.
\<close>

theorem total_sim_at_least_one:
  assumes shapes: "cshape0 contributions = shape0 origin_values"
      "cshape1 contributions = shape1 id_flatten_maps"
    and nonneg: "\<forall>b<cshape0 contributions. \<forall>x<cshape1 contributions. 0 \<le> celem contributions b x"
    and target: "b < shape0 origin_values" "i < shape1 origin_values"
  shows "fst (cell_accumulate id_flatten_maps origin_values new_values (b, i)
                (shape1 id_flatten_maps div shape1 origin_values) contributions)
         = 1 + (\<Sum>p\<leftarrow>filter (\<lambda>p. p \<noteq> (b, i)) (ndrange (shape0 origin_values) (shape1 origin_values)).
                  get_similarity id_flatten_maps (b, i) p
                    (shape1 id_flatten_maps div shape1 origin_values) contributions) \<and>
     (\<forall>p\<in>set (ndrange (shape0 origin_values) (shape1 origin_values)).
        0 \<le> get_similarity id_flatten_maps (b, i) p
              (shape1 id_flatten_maps div shape1 origin_values) contributions) \<and>
     1 \<le> fst (cell_accumulate id_flatten_maps origin_values new_values (b, i)
                (shape1 id_flatten_maps div shape1 origin_values) contributions) \<and>
     fst (cell_accumulate id_flatten_maps origin_values new_values (b, i)
                (shape1 id_flatten_maps div shape1 origin_values) contributions) \<noteq> 0"
proof -
  let ?cpp = "shape1 id_flatten_maps div shape1 origin_values"
  let ?cells = "ndrange (shape0 origin_values) (shape1 origin_values)"
  let ?sim = "\<lambda>p. get_similarity id_flatten_maps (b, i) p ?cpp contributions"
  have sim: "0 \<le> ?sim p" if "p \<in> set ?cells" for p
  proof (rule get_similarity_nonneg [OF nonneg])
    from that have p: "fst p < shape0 origin_values" "snd p < shape1 origin_values"
      by (auto simp: set_ndrange)
    show "fst (b, i) < cshape0 contributions" using target shapes by simp
    show "fst p < cshape0 contributions" using p shapes by simp
    show "\<forall>x\<in>set (pixels (snd (b, i)) ?cpp). x < cshape1 contributions"
      using pixels_in_range [of i "shape1 origin_values" _ "shape1 id_flatten_maps"] target shapes
      by simp
    show "\<forall>x\<in>set (pixels (snd p) ?cpp). x < cshape1 contributions"
      using pixels_in_range [of "snd p" "shape1 origin_values" _ "shape1 id_flatten_maps"] p shapes
      by simp
  qed
  have total: "fst (cell_accumulate id_flatten_maps origin_values new_values (b, i) ?cpp contributions)
      = 1 + (\<Sum>p\<leftarrow>filter (\<lambda>p. p \<noteq> (b, i)) ?cells. ?sim p)"
    by (simp add: fst_cell_accumulate total_sim_of_def others_def)
  have "0 \<le> (\<Sum>p\<leftarrow>filter (\<lambda>p. p \<noteq> (b, i)) ?cells. ?sim p)"
    by (rule sum_list_nonneg) (auto simp: sim)
  with total sim show ?thesis by auto
qed


theorem total_sim_at_least_one_witness:
  "fst (cell_accumulate (same_ids 1 2) (two_cells 10 30) (zeros3 1 2 1) (0, 0)
          (shape1 (same_ids 1 2) div shape1 (two_cells 10 30)) (ones2 1 2)) = 2 \<and>
   1 \<le> fst (cell_accumulate (same_ids 1 2) (two_cells 10 30) (zeros3 1 2 1) (0, 0)
          (shape1 (same_ids 1 2) div shape1 (two_cells 10 30)) (ones2 1 2))"
proof -
  have s: "cshape0 (ones2 1 2) = shape0 (two_cells 10 30)"
    "cshape1 (ones2 1 2) = shape1 (same_ids 1 2)"
    by (simp_all add: ones2_def two_cells_def same_ids_def)
  have n: "\<forall>b<cshape0 (ones2 1 2). \<forall>x<cshape1 (ones2 1 2). 0 \<le> celem (ones2 1 2) b x"
    by (simp add: ones2_def)
  have t: "0 < shape0 (two_cells 10 30)" "0 < shape1 (two_cells 10 30)"
    by (simp_all add: two_cells_def)
  have v: "fst (cell_accumulate (same_ids 1 2) (two_cells 10 30) (zeros3 1 2 1) (0, 0)
          (shape1 (same_ids 1 2) div shape1 (two_cells 10 30)) (ones2 1 2)) = 2"
    by code_simp
  from total_sim_at_least_one [OF s n t, of "zeros3 1 2 1"] v show ?thesis
    by simp
qed



lemma sum_list_all_one:
  assumes "\<And>x. x \<in> set xs \<Longrightarrow> f x = (1::real)"
  shows "(\<Sum>x\<leftarrow>xs. f x) = real (length xs)"
  using assms by (induction xs) auto

lemma sum_list_all_const:
  assumes "\<And>x. x \<in> set xs \<Longrightarrow> f x = (k::real)"
  shows "(\<Sum>x\<leftarrow>xs. f x) = real (length xs) * k"
  using assms by (induction xs) (auto simp: algebra_simps)

lemma get_similarity_identical:
  assumes ident: "\<forall>b<B. \<forall>x<P. \<forall>b'<B. \<forall>x'<P. \<forall>k<shape2 ids. elem ids b x k = elem ids b' x' k"
    and ones: "\<forall>b<B. \<forall>x<P. celem contrib b x = 1"
    and rows: "fst t < B" "fst cmp < B"
    and cols: "\<forall>x\<in>set (pixels (snd t) cpp). x < P" "\<forall>x\<in>set (pixels (snd cmp) cpp). x < P"
  shows "get_similarity ids t cmp cpp contrib = real (cpp * cpp)"
proof -
  have one_term: "celem contrib (fst cmp) i * celem contrib (fst t) x
        * real_of_int (check_values_equal ids (shape2 ids) (fst t, x) (fst cmp, i)) = 1"
    if "x \<in> set (pixels (snd t) cpp)" "i \<in> set (pixels (snd cmp) cpp)" for x i
  proof -
    have x: "x < P" and i: "i < P" using that cols by auto
    have "\<forall>k<shape2 ids. elem ids (fst t) x k = elem ids (fst cmp) i k"
      using ident rows x i by blast
    then have "check_values_equal ids (shape2 ids) (fst t, x) (fst cmp, i) = 1"
      by (simp add: check_values_equal_iff)
    moreover have "celem contrib (fst cmp) i = 1" "celem contrib (fst t) x = 1"
      using ones rows x i by auto
    ultimately show ?thesis by simp
  qed
  have inner: "(\<Sum>i\<leftarrow>pixels (snd cmp) cpp.
        celem contrib (fst cmp) i * celem contrib (fst t) x
        * real_of_int (check_values_equal ids (shape2 ids) (fst t, x) (fst cmp, i))) = real cpp"
    if "x \<in> set (pixels (snd t) cpp)" for x
    using sum_list_all_one [of "pixels (snd cmp) cpp", OF one_term [OF that]]
    by (simp add: length_pixels)
  show ?thesis
    unfolding get_similarity_sum
    using sum_list_all_const [of "pixels (snd t) cpp" _ "real cpp", OF inner]
    by (simp add: length_pixels)
qed

lemma others_remove1: "distinct ps \<Longrightarrow> others idx ps = remove1 idx ps"
  by (induction ps) (auto simp: others_def remove1_idem)

lemma sum_list_others:
  assumes "distinct ps" and "idx \<in> set ps"
  shows "(\<Sum>p\<leftarrow>others idx ps. f p) = (\<Sum>p\<leftarrow>ps. f p) - (f idx :: real)"
proof -
  have "others idx ps = remove1 idx ps"
    using assms(1) by (rule others_remove1)
  then show ?thesis
    using sum_list_map_remove1 [OF assms(2), of f] by simp
qed

lemma length_others:
  assumes "distinct ps" and "idx \<in> set ps"
  shows "length (others idx ps) = length ps - 1"
proof -
  have "others idx ps = remove1 idx ps"
    using assms(1) by (rule others_remove1)
  then show ?thesis using assms(2) by (simp add: length_remove1)
qed

lemma kernel_identical:
  assumes ident: "\<forall>b<shape0 vals. \<forall>x<shape1 ids. \<forall>b'<shape0 vals. \<forall>x'<shape1 ids.
        \<forall>k<shape2 ids. elem ids b x k = elem ids b' x' k"
    and ones: "\<forall>b<shape0 vals. \<forall>x<shape1 ids. celem contrib b x = 1"
    and zero: "\<forall>b<shape0 vals. \<forall>j<shape1 vals. \<forall>c<shape2 vals. elem nv b j c = 0"
    and cell: "b < shape0 vals" "i < shape1 vals" "c < shape2 vals"
  defines "k \<equiv> shape1 ids div shape1 vals"
  defines "n \<equiv> shape0 vals * shape1 vals"
  shows "elem (taichi_cells_overlap ids vals nv contrib) b i c =
     (elem vals b i c
        + real (k * k) * ((\<Sum>p\<leftarrow>ndrange (shape0 vals) (shape1 vals). elem vals (fst p) (snd p) c)
                          - elem vals b i c))
     / (1 + real (k * k) * real (n - 1))"
proof -
  let ?cells = "ndrange (shape0 vals) (shape1 vals)"
  have mem: "(b, i) \<in> set ?cells" using cell by (simp add: set_ndrange)
  have sim: "get_similarity ids (b, i) p k contrib = real (k * k)" if "p \<in> set ?cells" for p
  proof (rule get_similarity_identical [OF ident ones])
    from that have p: "fst p < shape0 vals" "snd p < shape1 vals" by (auto simp: set_ndrange)
    show "fst (b, i) < shape0 vals" using cell by simp
    show "fst p < shape0 vals" by (rule p)
    show "\<forall>x\<in>set (pixels (snd (b, i)) k). x < shape1 ids"
      unfolding k_def using pixels_in_range [of i "shape1 vals" _ "shape1 ids"] cell by simp
    show "\<forall>x\<in>set (pixels (snd p) k). x < shape1 ids"
      unfolding k_def using pixels_in_range [of "snd p" "shape1 vals" _ "shape1 ids"] p by simp
  qed
  have sim': "get_similarity ids (b, i) p k contrib = real (k * k)"
    if "p \<in> set (others (b, i) ?cells)" for p
    using that sim by (simp add: others_def)
  have "(\<Sum>p\<leftarrow>others (b, i) ?cells. get_similarity ids (b, i) p k contrib)
      = real (length (others (b, i) ?cells)) * real (k * k)"
    by (rule sum_list_all_const) (rule sim')
  also have "length (others (b, i) ?cells) = n - 1"
    by (simp add: length_others [OF distinct_ndrange mem]) (simp add: ndrange_def n_def)
  finally have total: "total_sim_of ids vals (b, i) k contrib = 1 + real (k * k) * real (n - 1)"
    by (simp add: total_sim_of_def mult.commute)
  have "(\<Sum>p\<leftarrow>others (b, i) ?cells. elem vals (fst p) (snd p) c * get_similarity ids (b, i) p k contrib)
      = (\<Sum>p\<leftarrow>others (b, i) ?cells. elem vals (fst p) (snd p) c * real (k * k))"
    by (rule arg_cong [where f = sum_list]) (simp add: sim' cong: map_cong)
  also have "\<dots> = real (k * k) * (\<Sum>p\<leftarrow>others (b, i) ?cells. elem vals (fst p) (snd p) c)"
    by (simp add: sum_list_const_mult mult.commute)
  also have "\<dots> = real (k * k) * ((\<Sum>p\<leftarrow>?cells. elem vals (fst p) (snd p) c) - elem vals b i c)"
    using sum_list_others [OF distinct_ndrange mem, of "\<lambda>p. elem vals (fst p) (snd p) c"] by simp
  finally have num: "(\<Sum>p\<leftarrow>others (b, i) ?cells. elem vals (fst p) (snd p) c * get_similarity ids (b, i) p k contrib)
      = real (k * k) * ((\<Sum>p\<leftarrow>?cells. elem vals (fst p) (snd p) c) - elem vals b i c)" .
  have z: "elem nv b i c = 0" using zero cell by simp
  show ?thesis
    using cell z
    by (simp add: elem_taichi_cells_overlap elem_cell_values_overlap k_def [symmetric] num total)
qed

text \<open>
  C4 (amended). With one pixel in every cell, identical identity tuples at all pixels,
  every contribution 1 and a zero-initialized placeholder, the output of every cell is the
  unweighted arithmetic mean of the values of all cells.
\<close>

theorem kernel_identical_unit_cells:
  assumes unit: "shape1 id_flatten_maps div shape1 origin_values = 1"
    and ident: "\<forall>b<shape0 origin_values. \<forall>x<shape1 id_flatten_maps.
        \<forall>b'<shape0 origin_values. \<forall>x'<shape1 id_flatten_maps.
        \<forall>k<shape2 id_flatten_maps. elem id_flatten_maps b x k = elem id_flatten_maps b' x' k"
    and ones: "\<forall>b<shape0 origin_values. \<forall>x<shape1 id_flatten_maps. celem contributions b x = 1"
    and zero: "\<forall>b<shape0 origin_values. \<forall>j<shape1 origin_values. \<forall>c<shape2 origin_values.
        elem new_values b j c = 0"
    and cell: "b < shape0 origin_values" "i < shape1 origin_values" "c < shape2 origin_values"
  shows "elem (taichi_cells_overlap id_flatten_maps origin_values new_values contributions) b i c =
     (\<Sum>p\<leftarrow>ndrange (shape0 origin_values) (shape1 origin_values).
        elem origin_values (fst p) (snd p) c)
     / real (shape0 origin_values * shape1 origin_values)"
proof -
  have "0 < shape0 origin_values * shape1 origin_values" using cell by simp
  then have "1 + real (shape0 origin_values * shape1 origin_values - 1)
      = real (shape0 origin_values * shape1 origin_values)"
    by simp
  then show ?thesis
    using kernel_identical [OF ident ones zero cell] unit by simp
qed

theorem kernel_identical_unit_cells_witness:
  "elem (taichi_cells_overlap (same_ids 1 2) (two_cells 10 30) (zeros3 1 2 1) (ones2 1 2)) 0 0 0 = 20 \<and>
   elem (taichi_cells_overlap (same_ids 1 2) (two_cells 10 30) (zeros3 1 2 1) (ones2 1 2)) 0 1 0 = 20"
proof -
  have u: "shape1 (same_ids 1 2) div shape1 (two_cells 10 30) = 1"
    by (simp add: same_ids_def two_cells_def)
  have id: "\<forall>b<shape0 (two_cells 10 30). \<forall>x<shape1 (same_ids 1 2).
        \<forall>b'<shape0 (two_cells 10 30). \<forall>x'<shape1 (same_ids 1 2).
        \<forall>k<shape2 (same_ids 1 2). elem (same_ids 1 2) b x k = elem (same_ids 1 2) b' x' k"
    by (simp add: same_ids_def)
  have on: "\<forall>b<shape0 (two_cells 10 30). \<forall>x<shape1 (same_ids 1 2). celem (ones2 1 2) b x = 1"
    by (simp add: ones2_def)
  have ze: "\<forall>b<shape0 (two_cells 10 30). \<forall>j<shape1 (two_cells 10 30). \<forall>c<shape2 (two_cells 10 30).
        elem (zeros3 1 2 1) b j c = 0"
    by (simp add: zeros3_def)
  have c0: "0 < shape0 (two_cells 10 30)" "0 < shape1 (two_cells 10 30)" "0 < shape2 (two_cells 10 30)"
    and c1: "1 < shape1 (two_cells 10 30)"
    by (simp_all add: two_cells_def)
  have s: "(\<Sum>p\<leftarrow>ndrange (shape0 (two_cells 10 30)) (shape1 (two_cells 10 30)).
        elem (two_cells 10 30) (fst p) (snd p) 0) = 40"
    by code_simp
  have n: "real (shape0 (two_cells 10 30) * shape1 (two_cells 10 30)) = 2"
    by (simp add: two_cells_def)
  from kernel_identical_unit_cells [OF u id on ze c0(1) c0(2) c0(3)]
       kernel_identical_unit_cells [OF u id on ze c0(1) c1 c0(3)]
  show ?thesis unfolding s n by simp
qed

text \<open>
  C4 (as stated, refuted). Two cells of two pixels each, identical identity tuples,
  contributions 1, values 10 and 30, zero-initialized placeholder: every other cell weighs
  4 against the self weight 1, and the outputs are 26 and 14, not the mean 20.
\<close>

theorem kernel_identical_four_pixels:
  "elem (taichi_cells_overlap (same_ids 1 4) (two_cells 10 30) (zeros3 1 2 1) (ones2 1 4)) 0 0 0 = 26 \<and>
   elem (taichi_cells_overlap (same_ids 1 4) (two_cells 10 30) (zeros3 1 2 1) (ones2 1 4)) 0 1 0 = 14 \<and>
   (elem (two_cells 10 30) 0 0 0 + elem (two_cells 10 30) 0 1 0) / 2 = 20"
  by code_simp

subsection \<open>The blend of one pass\<close>

lemma trace_points_Nil: "trace_points [] = []"
  by (simp add: trace_points_def)

lemma trace_points_Cons: "trace_points (((y, x), f) # v) = (f, y, x) # trace_points v"
  by (simp add: trace_points_def)

lemma length_trace_points: "length (trace_points v) = length v"
  by (simp add: trace_points_def)

lemma norm_index_nonneg: "norm_index n i = Inr j \<Longrightarrow> 0 \<le> i \<Longrightarrow> j = nat i \<and> i < int n"
  by (auto simp: norm_index_def split: if_splits)

lemma norm_pos_nonneg:
  assumes "norm_pos t (f, y, x) = Inr q" and "0 \<le> f" "0 \<le> y" "0 \<le> x"
  shows "q = (nat f, nat y, nat x) \<and> f < int (dim_T t) \<and> y < int (dim_H t) \<and> x < int (dim_W t)"
  using assms
  by (auto simp: norm_pos_def err_bind_Inr_iff dest!: norm_index_nonneg)

lemma err_map_norm_pos:
  assumes "err_map (norm_pos t) (trace_points v) = Inr qs"
    and "\<forall>occ\<in>set v. in_view occ"
  shows "qs = map position v \<and> (\<forall>occ\<in>set v. fst (position occ) < dim_T t)"
  using assms
proof (induction v arbitrary: qs)
  case Nil
  then show ?case by (simp add: trace_points_Nil)
next
  case (Cons occ v)
  obtain y x f where occ: "occ = ((y, x), f)" by (metis prod.collapse)
  from Cons.prems(1) obtain q qs' where
    q: "norm_pos t (f, y, x) = Inr q" and
    qs': "err_map (norm_pos t) (trace_points v) = Inr qs'" and
    qs: "qs = q # qs'"
    by (auto simp: occ trace_points_Cons split: sum.splits)
  have nn: "0 \<le> f" "0 \<le> y" "0 \<le> x" using Cons.prems(2) by (auto simp: occ in_view_def)
  have rest: "\<forall>occ\<in>set v. in_view occ" using Cons.prems(2) by simp
  from norm_pos_nonneg [OF q nn] Cons.IH [OF qs' rest] nn
  show ?case by (auto simp: qs occ position_def)
qed

lemma overlap_vertex_multi:
  assumes "overlap_vertex algorithm alpha R ps st st v h = Inr h'" and "length v \<noteq> 1"
  shows "\<exists>qs cons nv.
     err_map (norm_pos st) (trace_points v) = Inr qs \<and>
     consensus algorithm h st R v = Inr cons \<and>
     blend_seq alpha cons (map (read_block h st) qs) = Inr nv \<and>
     h' = scatter st qs nv h"
  using assms
  by (auto simp: overlap_vertex_def Let_def err_bind_Inr_iff consensus_def neighbour_average_def
      index_get_def index_put_def trace_points_def scatter_def split: if_splits)

lemma read_write_block:
  "read_block (write_block h t p v) t q =
     (\<lambda>b c. if q = p \<and> b < dim_B t \<and> c < dim_C t then v b c else read_block h t q b c)"
  by (cases p; cases q) (auto simp: read_block_def write_block_def fun_eq_iff)

lemma scatter_Nil: "scatter t [] vals h = h" and scatter_Nil2: "scatter t ps [] h = h"
  by (simp_all add: scatter_def)

lemma scatter_Cons: "scatter t (p # ps) (v # vals) h = scatter t ps vals (write_block h t p v)"
  by (simp add: scatter_def)

lemma read_scatter_other:
  "q \<notin> set ps \<Longrightarrow> read_block (scatter t ps vals h) t q = read_block h t q"
proof (induction ps arbitrary: vals h)
  case Nil
  then show ?case by (simp add: scatter_Nil)
next
  case (Cons p ps)
  show ?case
  proof (cases vals)
    case Nil
    then show ?thesis by (simp add: scatter_Nil2)
  next
    case (Cons v vals')
    with Cons.prems Cons.IH [of vals' "write_block h t p v"] show ?thesis
      by (auto simp: scatter_Cons read_write_block)
  qed
qed

lemma read_scatter_nth:
  assumes "distinct ps" and "i < length ps" and "length vals = length ps"
    and "b < dim_B t" and "c < dim_C t"
  shows "read_block (scatter t ps vals h) t (ps ! i) b c = (vals ! i) b c"
  using assms
proof (induction ps arbitrary: vals h i)
  case Nil
  then show ?case by simp
next
  case (Cons p ps)
  then obtain v vals' where vals: "vals = v # vals'" by (cases vals) auto
  show ?case
  proof (cases i)
    case 0
    have "p \<notin> set ps" using Cons.prems(1) by simp
    then have "read_block (scatter t ps vals' (write_block h t p v)) t p
        = read_block (write_block h t p v) t p"
      by (rule read_scatter_other)
    then show ?thesis using 0 Cons.prems(4,5) by (simp add: vals scatter_Cons read_write_block)
  next
    case (Suc j)
    then show ?thesis using Cons.prems Cons.IH [of j vals' "write_block h t p v"]
      by (simp add: vals scatter_Cons)
  qed
qed

lemma multi_Nil: "multi [] = []"
  by (simp add: multi_def)

lemma multi_Cons: "multi (v # vs) = (if length v \<noteq> 1 then v @ multi vs else multi vs)"
  by (simp add: multi_def)

lemma multi_append: "multi (xs @ ys) = multi xs @ multi ys"
  by (simp add: multi_def)

lemma overlap_vertex_single:
  "overlap_vertex algorithm alpha R ps st cp v h = Inr h' \<Longrightarrow> length v = 1 \<Longrightarrow> h' = h"
  by (auto simp: overlap_vertex_def split: if_splits)

lemma overlap_loop_frame:
  assumes "overlap_loop algorithm alpha R ps st st vs h = Inr h'"
    and "\<forall>occ\<in>set (multi vs). in_view occ"
    and "q \<notin> position ` set (multi vs)"
  shows "read_block h' st q = read_block h st q"
  using assms
proof (induction vs arbitrary: h)
  case Nil
  then show ?case by simp
next
  case (Cons v vs)
  from Cons.prems(1) obtain h1 where
    v: "overlap_vertex algorithm alpha R ps st st v h = Inr h1" and
    rest: "overlap_loop algorithm alpha R ps st st vs h1 = Inr h'"
    by (auto split: sum.splits)
  have nn: "\<forall>occ\<in>set (multi vs). in_view occ"
    using Cons.prems(2) by (auto simp: multi_Cons split: if_splits)
  have q: "q \<notin> position ` set (multi vs)"
    using Cons.prems(3) by (auto simp: multi_Cons split: if_splits)
  have later: "read_block h' st q = read_block h1 st q"
    by (rule Cons.IH [OF rest nn q])
  have "read_block h1 st q = read_block h st q"
  proof (cases "length v = 1")
    case True
    then show ?thesis using overlap_vertex_single [OF v] by simp
  next
    case False
    from overlap_vertex_multi [OF v False] obtain qs nv where
      qs: "err_map (norm_pos st) (trace_points v) = Inr qs" and
      h1: "h1 = scatter st qs nv h"
      by blast
    have "\<forall>occ\<in>set v. in_view occ"
      using Cons.prems(2) False by (auto simp: multi_Cons)
    from err_map_norm_pos [OF qs this] have "qs = map position v" by simp
    moreover have "q \<notin> position ` set v"
      using Cons.prems(3) False by (auto simp: multi_Cons)
    ultimately have "q \<notin> set qs" by simp
    then show ?thesis unfolding h1 by (rule read_scatter_other)
  qed
  with later show ?case by simp
qed

lemma overlap_loop_append:
  "overlap_loop algorithm alpha R ps st cp (xs @ ys) h =
     (case overlap_loop algorithm alpha R ps st cp xs h of
        Inl e \<Rightarrow> Inl e
      | Inr h' \<Rightarrow> overlap_loop algorithm alpha R ps st cp ys h')"
  by (induction xs arbitrary: h) (auto split: sum.splits)

lemma neighbour_average_length:
  assumes "neighbour_average h st R v = Inr avg"
  shows "length avg = length v"
proof -
  have eq: "get_extended_traces R (map snd v) (map snd (map fst v)) (map fst (map fst v))
      (int (dim_W st)) (int (dim_H st)) =
     Inr (map (\<lambda>f. Window (replicate (length (window R 0 (int (dim_H st)))) f)) (map snd v),
          map (\<lambda>y. Window (window R y (int (dim_H st)))) (map fst (map fst v)),
          map (\<lambda>x. Window (window R x (int (dim_W st)))) (map snd (map fst v)))"
    by (rule get_extended_traces_equal_lengths) simp_all
  from assms obtain wv where
    wv: "index_get_windows h st
          (map (\<lambda>f. Window (replicate (length (window R 0 (int (dim_H st)))) f)) (map snd v))
          (map (\<lambda>y. Window (window R y (int (dim_H st)))) (map fst (map fst v)))
          (map (\<lambda>x. Window (window R x (int (dim_W st)))) (map snd (map fst v))) = Inr wv"
    and avg: "mean_dim1 wv = Inr avg"
    unfolding neighbour_average_def eq by (auto simp: err_bind_Inr_iff)
  from wv obtain fws yws xws where
    f: "err_map as_window (map (\<lambda>f. Window (replicate (length (window R 0 (int (dim_H st)))) f)) (map snd v)) = Inr fws"
    and y: "err_map as_window (map (\<lambda>y. Window (window R y (int (dim_H st)))) (map fst (map fst v))) = Inr yws"
    and x: "err_map as_window (map (\<lambda>x. Window (window R x (int (dim_W st)))) (map snd (map fst v))) = Inr xws"
    and w: "err_map (\<lambda>(fw, yw, xw). index_get h st fw yw xw) (zip fws (zip yws xws)) = Inr wv"
    unfolding index_get_windows_def by (auto simp: err_bind_Inr_iff)
  have "length fws = length v" "length yws = length v" "length xws = length v"
    using err_map_length [OF f] err_map_length [OF y] err_map_length [OF x] by simp_all
  then have "length wv = length v"
    using err_map_length [OF w] by simp
  moreover have "length avg = length wv"
    using avg by (auto simp: mean_dim1_def split: if_splits)
  ultimately show ?thesis by simp
qed

lemma consensus_length:
  assumes "consensus algorithm h st R v = Inr cons"
    and "\<forall>avgs fs xs ys. length (algorithm avgs fs xs ys) = length avgs"
  shows "length cons = length v"
  using assms neighbour_average_length
  by (auto simp: consensus_def err_bind_Inr_iff)

lemma blend_seq_nth:
  assumes "blend_seq alpha cons lat = Inr nv" and "length cons = length lat" and "i < length lat"
  shows "length nv = length lat \<and> nv ! i = blend alpha (cons ! i) (lat ! i)"
  using assms by (auto simp: blend_seq_def)

lemma position_inj:
  assumes "position o1 = position o2"
    and "in_view o1" and "in_view o2"
  shows "o1 = o2"
  using assms by (auto simp: position_def in_view_def split: prod.splits)

lemma overlap_loop_blend:
  assumes loop: "overlap_loop algorithm alpha R ps st st vs h0 = Inr hf"
    and dist: "distinct (multi vs)"
    and nonneg: "\<forall>occ\<in>set (multi vs). in_view occ"
    and shape_ok: "\<forall>avgs fs xs ys. length (algorithm avgs fs xs ys) = length avgs"
    and k: "k < length vs" "length (vs ! k) \<noteq> 1"
    and i: "i < length (vs ! k)"
    and bc: "b < dim_B st" "c < dim_C st"
  shows "\<exists>hk cons.
     overlap_loop algorithm alpha R ps st st (take k vs) h0 = Inr hk \<and>
     consensus algorithm hk st R (vs ! k) = Inr cons \<and>
     length cons = length (vs ! k) \<and>
     read_block hf st (position (vs ! k ! i)) b c =
       alpha * (cons ! i) b c + (1 - alpha) * read_block h0 st (position (vs ! k ! i)) b c \<and>
     fst (position (vs ! k ! i)) < dim_T st"
proof -
  let ?v = "vs ! k"
  let ?q = "position (?v ! i)"
  have split: "vs = take k vs @ ?v # drop (Suc k) vs"
    using k(1) by (rule id_take_nth_drop)
  have m: "multi vs = multi (take k vs) @ ?v @ multi (drop (Suc k) vs)"
    using k(2) by (subst split) (simp add: multi_append multi_Cons)
  from loop obtain hk hk1 where
    pre: "overlap_loop algorithm alpha R ps st st (take k vs) h0 = Inr hk" and
    ver: "overlap_vertex algorithm alpha R ps st st ?v hk = Inr hk1" and
    post: "overlap_loop algorithm alpha R ps st st (drop (Suc k) vs) hk1 = Inr hf"
    by (subst (asm) split) (auto simp: overlap_loop_append split: sum.splits)
  have d_v: "distinct ?v"
    and d_pre: "set (multi (take k vs)) \<inter> set ?v = {}"
    and d_post: "set ?v \<inter> set (multi (drop (Suc k) vs)) = {}"
    using dist unfolding m by auto
  have nn_v: "\<forall>occ\<in>set ?v. in_view occ"
    and nn_pre: "\<forall>occ\<in>set (multi (take k vs)). in_view occ"
    and nn_post: "\<forall>occ\<in>set (multi (drop (Suc k) vs)). in_view occ"
    using nonneg unfolding m by auto
  have vi: "?v ! i \<in> set ?v" using i by simp
  have nn_i: "in_view (?v ! i)"
    by (rule bspec [OF nn_v vi])
  have q_pre: "?q \<notin> position ` set (multi (take k vs))"
  proof
    assume "?q \<in> position ` set (multi (take k vs))"
    then obtain o2 where o2: "o2 \<in> set (multi (take k vs))" "position o2 = ?q" by auto
    then have "in_view o2"
      using nn_pre by blast
    from position_inj [OF o2(2) this nn_i] o2(1) vi d_pre show False by auto
  qed
  have q_post: "?q \<notin> position ` set (multi (drop (Suc k) vs))"
  proof
    assume "?q \<in> position ` set (multi (drop (Suc k) vs))"
    then obtain o2 where o2: "o2 \<in> set (multi (drop (Suc k) vs))" "position o2 = ?q" by auto
    then have "in_view o2"
      using nn_post by blast
    from position_inj [OF o2(2) this nn_i] o2(1) vi d_post show False by auto
  qed
  from overlap_vertex_multi [OF ver k(2)] obtain qs cons nv where
    qs: "err_map (norm_pos st) (trace_points ?v) = Inr qs" and
    cons: "consensus algorithm hk st R ?v = Inr cons" and
    nv: "blend_seq alpha cons (map (read_block hk st) qs) = Inr nv" and
    hk1: "hk1 = scatter st qs nv hk"
    by blast
  from err_map_norm_pos [OF qs nn_v] have qs_eq: "qs = map position ?v"
    and frames: "\<forall>occ\<in>set ?v. fst (position occ) < dim_T st" by simp_all
  have lc: "length cons = length ?v"
    by (rule consensus_length [OF cons shape_ok])
  have d_qs: "distinct qs"
    unfolding qs_eq distinct_map
  proof
    show "distinct ?v" by (rule d_v)
    show "inj_on position (set ?v)"
    proof (rule inj_onI)
      fix o1 o2 assume "o1 \<in> set ?v" "o2 \<in> set ?v" "position o1 = position o2"
      with nn_v show "o1 = o2" by (intro position_inj) blast+
    qed
  qed
  have li: "i < length (map (read_block hk st) qs)" using i by (simp add: qs_eq)
  from blend_seq_nth [OF nv _ li] lc
  have lnv: "length nv = length qs"
    and nvi: "nv ! i = blend alpha (cons ! i) (read_block hk st (qs ! i))"
    using i by (simp_all add: qs_eq)
  have qi: "qs ! i = ?q" using i by (simp add: qs_eq)
  have "read_block hf st ?q = read_block hk1 st ?q"
    by (rule overlap_loop_frame [OF post nn_post q_post])
  moreover have "read_block hk1 st ?q b c = (nv ! i) b c"
    unfolding hk1 using read_scatter_nth [OF d_qs _ lnv bc, of i hk] i
    by (simp add: qi) (simp add: qs_eq)
  moreover have "read_block hk st ?q = read_block h0 st ?q"
    by (rule overlap_loop_frame [OF pre nn_pre q_pre])
  ultimately have val: "read_block hf st ?q b c =
       alpha * (cons ! i) b c + (1 - alpha) * read_block h0 st ?q b c"
    by (simp add: nvi qi blend_def)
  have "fst ?q < dim_T st"
    using frames vi by blast
  with pre cons lc val show ?thesis by blast
qed

lemma inside_in_view: "inside n h w occ \<Longrightarrow> in_view occ"
  by (auto simp: inside_def in_view_def split: prod.splits)

lemma norm_pos_inside:
  assumes "0 \<le> f" "f < int (dim_T t)" "0 \<le> y" "y < int (dim_H t)" "0 \<le> x" "x < int (dim_W t)"
  shows "norm_pos t (f, y, x) = Inr (nat f, nat y, nat x)"
  using assms by (simp add: norm_pos_def norm_index_def)

lemma err_map_norm_pos_inside:
  assumes "\<forall>occ\<in>set v. inside (dim_T t) (dim_H t) (dim_W t) occ"
  shows "err_map (norm_pos t) (trace_points v) = Inr (map position v)"
  using assms
proof (induction v)
  case Nil
  then show ?case by (simp add: trace_points_Nil)
next
  case (Cons occ v)
  obtain y x f where occ: "occ = ((y, x), f)" by (metis prod.collapse)
  have "norm_pos t (f, y, x) = Inr (nat f, nat y, nat x)"
    using Cons.prems by (intro norm_pos_inside) (auto simp: occ inside_def)
  then show ?case using Cons by (simp add: occ trace_points_Cons position_def)
qed

lemma clamp_range: "0 < n \<Longrightarrow> 0 \<le> clamp v 0 (int n - 1) \<and> clamp v 0 (int n - 1) < int n"
  by (auto simp: clamp_def)

lemma window_range: "0 < n \<Longrightarrow> p \<in> set (window R pos (int n)) \<Longrightarrow> 0 \<le> p \<and> p < int n"
  using clamp_range by (auto simp: window_def)

lemma index_get_window_total:
  assumes f: "0 \<le> f" "f < int (dim_T t)" and hw: "0 < dim_H t" "0 < dim_W t"
    and n: "n = length (window R 0 (int (dim_H t)))"
  shows "\<exists>ws. index_get h t (replicate n f) (window R y (int (dim_H t)))
            (window R x (int (dim_W t))) = Inr ws \<and> length ws = n"
proof -
  have len: "length (window R y (int (dim_H t))) = n" "length (window R x (int (dim_W t))) = n"
    by (simp_all add: n window_def)
  have "\<exists>qs. err_map (norm_pos t)
      (zip (replicate n f) (zip (window R y (int (dim_H t))) (window R x (int (dim_W t))))) = Inr qs"
  proof (rule err_map_total)
    fix p assume p: "p \<in> set (zip (replicate n f) (zip (window R y (int (dim_H t))) (window R x (int (dim_W t)))))"
    obtain f' y' x' where pe: "p = (f', y', x')" by (metis prod.collapse)
    from p have "f' \<in> set (replicate n f)" and yx: "(y', x') \<in> set (zip (window R y (int (dim_H t))) (window R x (int (dim_W t))))"
      unfolding pe by (auto dest: set_zip_leftD set_zip_rightD)
    then have f': "f' = f" by auto
    from yx have "y' \<in> set (window R y (int (dim_H t)))" "x' \<in> set (window R x (int (dim_W t)))"
      by (auto dest: set_zip_leftD set_zip_rightD)
    then have "0 \<le> y' \<and> y' < int (dim_H t)" "0 \<le> x' \<and> x' < int (dim_W t)"
      using window_range hw by blast+
    then have "norm_pos t p = Inr (nat f', nat y', nat x')"
      unfolding pe using f f' by (intro norm_pos_inside) auto
    then show "\<exists>q. norm_pos t p = Inr q" by blast
  qed
  then obtain qs where qs: "err_map (norm_pos t)
      (zip (replicate n f) (zip (window R y (int (dim_H t))) (window R x (int (dim_W t))))) = Inr qs"
    by blast
  have "length qs = n" using err_map_length [OF qs] len by simp
  then show ?thesis by (simp add: index_get_def qs)
qed

lemma err_map_as_window: "err_map as_window (map (\<lambda>z. Window (g z)) zs) = Inr (map g zs)"
  by (induction zs) auto

lemma index_get_windows_total:
  assumes v: "\<forall>occ\<in>set v. inside (dim_T t) (dim_H t) (dim_W t) occ"
    and n: "n = length (window R 0 (int (dim_H t)))"
  shows "\<exists>wv. index_get_windows h t
       (map (\<lambda>f. Window (replicate n f)) (map snd v))
       (map (\<lambda>y. Window (window R y (int (dim_H t)))) (map fst (map fst v)))
       (map (\<lambda>x. Window (window R x (int (dim_W t)))) (map snd (map fst v))) = Inr wv \<and>
     length wv = length v \<and> (\<forall>ws\<in>set wv. length ws = n)"
  using v
proof (induction v)
  case Nil
  then show ?case by (simp add: index_get_windows_def)
next
  case (Cons occ v)
  obtain y x f where occ: "occ = ((y, x), f)" by (metis prod.collapse)
  from Cons.prems have ins: "0 \<le> f" "f < int (dim_T t)" "0 < dim_H t" "0 < dim_W t"
    by (auto simp: occ inside_def)
  from index_get_window_total [OF ins n, of h y x] obtain ws where
    ws: "index_get h t (replicate n f) (window R y (int (dim_H t))) (window R x (int (dim_W t))) = Inr ws"
    and lws: "length ws = n" by blast
  from Cons.IH Cons.prems obtain wv where
    wv: "index_get_windows h t
       (map (\<lambda>f. Window (replicate n f)) (map snd v))
       (map (\<lambda>y. Window (window R y (int (dim_H t)))) (map fst (map fst v)))
       (map (\<lambda>x. Window (window R x (int (dim_W t)))) (map snd (map fst v))) = Inr wv"
    and lwv: "length wv = length v" "\<forall>ws\<in>set wv. length ws = n"
    by auto
  from wv have rest: "err_map (\<lambda>(fw, yw, xw). index_get h t fw yw xw)
      (zip (map (replicate n) (map snd v))
         (zip (map (\<lambda>y. window R y (int (dim_H t))) (map fst (map fst v)))
              (map (\<lambda>x. window R x (int (dim_W t))) (map snd (map fst v))))) = Inr wv"
    by (simp add: index_get_windows_def err_map_as_window [where g = "replicate n"]
        err_map_as_window [where g = "\<lambda>y. window R y (int (dim_H t))"]
        err_map_as_window [where g = "\<lambda>x. window R x (int (dim_W t))"] del: map_map)
  have "index_get_windows h t
       (map (\<lambda>f. Window (replicate n f)) (map snd (occ # v)))
       (map (\<lambda>y. Window (window R y (int (dim_H t)))) (map fst (map fst (occ # v))))
       (map (\<lambda>x. Window (window R x (int (dim_W t)))) (map snd (map fst (occ # v)))) = Inr (ws # wv)"
    using ws rest
    by (simp add: index_get_windows_def occ err_map_as_window [where g = "replicate n"]
        err_map_as_window [where g = "\<lambda>y. window R y (int (dim_H t))"]
        err_map_as_window [where g = "\<lambda>x. window R x (int (dim_W t))"] del: map_map)
  then show ?case using lws lwv by simp
qed

lemma neighbour_average_total:
  assumes v: "\<forall>occ\<in>set v. inside (dim_T t) (dim_H t) (dim_W t) occ" and R: "0 \<le> R"
  shows "\<exists>avg. neighbour_average h t R v = Inr avg"
proof -
  let ?n = "length (window R 0 (int (dim_H t)))"
  have n: "?n = nat (2 * R + 1)" using R by (rule length_window)
  from index_get_windows_total [OF v refl, of h R] obtain wv where
    wv: "index_get_windows h t
       (map (\<lambda>f. Window (replicate ?n f)) (map snd v))
       (map (\<lambda>y. Window (window R y (int (dim_H t)))) (map fst (map fst v)))
       (map (\<lambda>x. Window (window R x (int (dim_W t)))) (map snd (map fst v))) = Inr wv"
    and l: "\<forall>ws\<in>set wv. length ws = ?n"
    by blast
  have "[] \<notin> set wv" using l n R by auto
  then have "\<exists>avg. mean_dim1 wv = Inr avg" by (simp add: mean_dim1_def)
  then show ?thesis
    unfolding neighbour_average_def
    by (simp add: get_extended_traces_equal_lengths wv del: map_map)
qed

lemma overlap_vertex_total:
  assumes v: "\<forall>occ\<in>set v. inside (dim_T st) (dim_H st) (dim_W st) occ" and R: "0 \<le> R"
    and ne: "v \<noteq> []" and ps: "ps \<noteq> Some 0"
    and shape_ok: "\<forall>avgs fs xs ys. length (algorithm avgs fs xs ys) = length avgs"
  shows "\<exists>h'. overlap_vertex algorithm alpha R ps st st v h = Inr h'"
proof (cases "length v = 1")
  case True
  then show ?thesis using ps by (simp add: overlap_vertex_def)
next
  case False
  from neighbour_average_total [OF v R, of h] obtain avg where
    avg: "neighbour_average h st R v = Inr avg" by blast
  have la: "length avg = length v" by (rule neighbour_average_length [OF avg])
  have pos: "err_map (norm_pos st) (trace_points v) = Inr (map position v)"
    by (rule err_map_norm_pos_inside [OF v])
  have "\<exists>nv. blend_seq alpha (algorithm avg (map snd v) (map snd (map fst v)) (map fst (map fst v)))
      (map (read_block h st) (map position v)) = Inr nv"
    using shape_ok la by (simp add: blend_seq_def)
  then obtain nv where nv: "blend_seq alpha (algorithm avg (map snd v) (map snd (map fst v)) (map fst (map fst v)))
      (map (read_block h st) (map position v)) = Inr nv" by blast
  from avg obtain wv where
    ext: "index_get_windows h st
       (map (\<lambda>f. Window (replicate (length (window R 0 (int (dim_H st)))) f)) (map snd v))
       (map (\<lambda>y. Window (window R y (int (dim_H st)))) (map fst (map fst v)))
       (map (\<lambda>x. Window (window R x (int (dim_W st)))) (map snd (map fst v))) = Inr wv"
    and mean: "mean_dim1 wv = Inr avg"
    unfolding neighbour_average_def
    by (auto simp: get_extended_traces_equal_lengths err_bind_Inr_iff simp del: map_map)
  show ?thesis
    using False ne ps
    unfolding overlap_vertex_def
    by (simp add: Let_def get_extended_traces_equal_lengths index_get_def index_put_def
        trace_points_def [symmetric] pos nv ext mean del: map_map)
qed

lemma overlap_loop_total:
  assumes "\<forall>occ\<in>set (multi vs). inside (dim_T st) (dim_H st) (dim_W st) occ" and "0 \<le> R"
    and "[] \<notin> set vs" and "ps \<noteq> Some 0 \<or> vs = []"
    and "\<forall>avgs fs xs ys. length (algorithm avgs fs xs ys) = length avgs"
  shows "\<exists>h'. overlap_loop algorithm alpha R ps st st vs h = Inr h'"
  using assms
proof (induction vs arbitrary: h)
  case Nil
  then show ?case by simp
next
  case (Cons v vs)
  have ps: "ps \<noteq> Some 0" using Cons.prems(4) by simp
  have "\<exists>h1. overlap_vertex algorithm alpha R ps st st v h = Inr h1"
  proof (cases "length v = 1")
    case True
    then show ?thesis using ps by (simp add: overlap_vertex_def)
  next
    case False
    then have "\<forall>occ\<in>set v. inside (dim_T st) (dim_H st) (dim_W st) occ"
      using Cons.prems(1) by (simp add: multi_Cons)
    moreover have "v \<noteq> []" using Cons.prems(3) by auto
    ultimately show ?thesis
      using overlap_vertex_total [OF _ Cons.prems(2) _ ps Cons.prems(5)] by blast
  qed
  then obtain h1 where h1: "overlap_vertex algorithm alpha R ps st st v h = Inr h1" by blast
  have "\<forall>occ\<in>set (multi vs). inside (dim_T st) (dim_H st) (dim_W st) occ"
    using Cons.prems(1) by (auto simp: multi_Cons split: if_splits)
  moreover have "[] \<notin> set vs" using Cons.prems(3) by simp
  ultimately obtain h' where "overlap_loop algorithm alpha R ps st st vs h1 = Inr h'"
    using Cons.IH [of h1] Cons.prems(2,5) ps by blast
  then show ?case using h1 by simp
qed

lemma overlap_unfold:
  assumes nonempty: "frame_seq \<noteq> []"
    and shapes: "list_all (\<lambda>fr. shape fr = shape (hd frame_seq)) frame_seq"
    and fits: "f_height (hd frame_seq) = c_height corr_map"
      "f_width (hd frame_seq) = c_width corr_map"
    and quiet: "engine_looping \<or> timestep \<noteq> None"
  shows "overlap alpha_scheduler kernel_radius_scheduler algorithm engine_looping frame_seq
           corr_map step timestep =
     err_bind (overlap_loop algorithm (alpha_scheduler step timestep)
                 (overlap_kernel_radius kernel_radius_scheduler step timestep)
                 (if engine_looping then None else Some (c_len corr_map div 100))
                 (snd (torch_stack empty_heap frame_seq)) (snd (torch_stack empty_heap frame_seq))
                 (map snd (c_Map corr_map)) (fst (torch_stack empty_heap frame_seq)))
       (\<lambda>h'. Inr (value_of h' (snd (torch_stack empty_heap frame_seq))))"
proof -
  obtain fr0 rest where fs: "frame_seq = fr0 # rest"
    using nonempty by (cases frame_seq) auto
  show ?thesis
    using shapes fits quiet unfolding overlap_def fs
    by (auto simp: Let_def case_prod_beta detach_def simp del: overlap_loop.simps)
qed

lemma dims_torch_stack:
  "dim_T (snd (torch_stack h frame_seq)) = length frame_seq"
  "dim_B (snd (torch_stack h frame_seq)) = f_batch (hd frame_seq)"
  "dim_C (snd (torch_stack h frame_seq)) = f_channels (hd frame_seq)"
  "dim_H (snd (torch_stack h frame_seq)) = f_height (hd frame_seq)"
  "dim_W (snd (torch_stack h frame_seq)) = f_width (hd frame_seq)"
  by (simp_all add: torch_stack_def)

lemma read_torch_stack:
  "f < length frame_seq \<Longrightarrow>
   read_block (fst (torch_stack empty_heap frame_seq)) (snd (torch_stack empty_heap frame_seq))
     (f, y, x) b c = f_data (frame_seq ! f) b c y x"
  by (simp add: read_block_def torch_stack_def stacked_def)

lemma overlap_blend_general:
  assumes nonempty: "frame_seq \<noteq> []"
    and shapes: "list_all (\<lambda>fr. shape fr = shape (hd frame_seq)) frame_seq"
    and fits: "f_height (hd frame_seq) = c_height corr_map"
      "f_width (hd frame_seq) = c_width corr_map"
    and quiet: "engine_looping \<or>
      (timestep \<noteq> None \<and> (c_Map corr_map = [] \<or> 100 \<le> c_len corr_map))"
    and radius: "0 \<le> overlap_kernel_radius kernel_radius_scheduler step timestep"
    and no_empty: "[] \<notin> set (map snd (c_Map corr_map))"
    and inside: "\<forall>occ\<in>set (multi (map snd (c_Map corr_map))).
        inside (length frame_seq) (c_height corr_map) (c_width corr_map) occ"
    and dist: "distinct (multi (map snd (c_Map corr_map)))"
    and shape_ok: "\<forall>avgs fs xs ys. length (algorithm avgs fs xs ys) = length avgs"
    and k: "k < length (c_Map corr_map)" "length (snd (c_Map corr_map ! k)) \<noteq> 1"
    and i: "i < length (snd (c_Map corr_map ! k))" "snd (c_Map corr_map ! k) ! i = ((y, x), f)"
    and bc: "b < f_batch (hd frame_seq)" "c < f_channels (hd frame_seq)"
  shows "\<exists>out cons.
       overlap alpha_scheduler kernel_radius_scheduler algorithm engine_looping frame_seq
         corr_map step timestep = Inr out \<and>
       pass_consensus alpha_scheduler kernel_radius_scheduler algorithm engine_looping
         frame_seq corr_map step timestep k = Inr cons \<and>
       length cons = length (snd (c_Map corr_map ! k)) \<and>
       v_data out (nat f) b c (nat y) (nat x) =
         alpha_scheduler step timestep * (cons ! i) b c
         + (1 - alpha_scheduler step timestep) * f_data (frame_seq ! nat f) b c (nat y) (nat x)"
proof -
  let ?st = "snd (torch_stack empty_heap frame_seq)"
  let ?h0 = "fst (torch_stack empty_heap frame_seq)"
  let ?vs = "map snd (c_Map corr_map)"
  let ?alpha = "alpha_scheduler step timestep"
  let ?R = "overlap_kernel_radius kernel_radius_scheduler step timestep"
  let ?ps = "if engine_looping then None else Some (c_len corr_map div 100)"
  have ins: "\<forall>occ\<in>set (multi ?vs). inside (dim_T ?st) (dim_H ?st) (dim_W ?st) occ"
    using inside fits by (simp add: dims_torch_stack)
  have ps: "?ps \<noteq> Some 0 \<or> ?vs = []" using quiet by auto
  from overlap_loop_total [OF ins radius no_empty ps shape_ok, of ?alpha ?h0]
  obtain hf where hf: "overlap_loop algorithm ?alpha ?R ?ps ?st ?st ?vs ?h0 = Inr hf"
    by blast
  have q: "engine_looping \<or> timestep \<noteq> None" using quiet by auto
  have run: "overlap alpha_scheduler kernel_radius_scheduler algorithm engine_looping frame_seq
         corr_map step timestep = Inr (value_of hf ?st)"
    unfolding overlap_unfold [OF nonempty shapes fits q] hf by simp
  have view: "\<forall>occ\<in>set (multi ?vs). in_view occ"
    using ins inside_in_view by blast
  have k': "k < length ?vs" "length (?vs ! k) \<noteq> 1" using k by simp_all
  have i': "i < length (?vs ! k)" using i k by simp
  have bc': "b < dim_B ?st" "c < dim_C ?st" using bc by (simp_all add: dims_torch_stack)
  from overlap_loop_blend [OF hf dist view shape_ok k' i' bc']
  obtain hk cons where
    pre: "overlap_loop algorithm ?alpha ?R ?ps ?st ?st (take k ?vs) ?h0 = Inr hk" and
    cons: "consensus algorithm hk ?st ?R (?vs ! k) = Inr cons" and
    lc: "length cons = length (?vs ! k)" and
    val: "read_block hf ?st (position (?vs ! k ! i)) b c =
       ?alpha * (cons ! i) b c + (1 - ?alpha) * read_block ?h0 ?st (position (?vs ! k ! i)) b c" and
    fr: "fst (position (?vs ! k ! i)) < dim_T ?st"
    by blast
  have occ: "?vs ! k ! i = ((y, x), f)" using i k by simp
  have pos: "position (?vs ! k ! i) = (nat f, nat y, nat x)"
    by (simp add: occ position_def)
  have f: "nat f < length frame_seq" using fr by (simp add: pos dims_torch_stack)
  have pc: "pass_consensus alpha_scheduler kernel_radius_scheduler algorithm engine_looping
         frame_seq corr_map step timestep k = Inr cons"
    unfolding pass_consensus_def
    using pre cons by (simp add: Let_def case_prod_beta detach_def)
  have "v_data (value_of hf ?st) (nat f) b c (nat y) (nat x) =
      read_block hf ?st (nat f, nat y, nat x) b c"
    by (simp add: value_of_def read_block_def)
  also have "\<dots> = ?alpha * (cons ! i) b c
      + (1 - ?alpha) * read_block ?h0 ?st (nat f, nat y, nat x) b c"
    using val by (simp add: pos)
  also have "read_block ?h0 ?st (nat f, nat y, nat x) b c = f_data (frame_seq ! nat f) b c (nat y) (nat x)"
    by (rule read_torch_stack [OF f])
  finally have "v_data (value_of hf ?st) (nat f) b c (nat y) (nat x) =
      ?alpha * (cons ! i) b c + (1 - ?alpha) * f_data (frame_seq ! nat f) b c (nat y) (nat x)" .
  with run pc lc k show ?thesis by auto
qed

text \<open>
  The blend where the diagnostics do not raise. For a pass on well-formed input (frames of
  one shape that fits the map, a nonnegative radius, no empty occurrence list, all traced
  positions of the blended ids inside the stack and pairwise distinct, an algorithm that
  returns one block for each occurrence), the pass returns, and at every traced position of
  an id with at least two occurrences the output is alpha times the consensus block of that
  occurrence plus (1 - alpha) times the original input value. Inside the engine loop the
  spec's scenario (values 10, 20, 30, radius 0, mean consensus) gives 20, 20, 20 for alpha
  1 and 15, 20, 25 for alpha 0.5.
\<close>

theorem overlap_blend:
  assumes nonempty: "frame_seq \<noteq> []"
    and shapes: "list_all (\<lambda>fr. shape fr = shape (hd frame_seq)) frame_seq"
    and fits: "f_height (hd frame_seq) = c_height corr_map"
      "f_width (hd frame_seq) = c_width corr_map"
    and quiet: "engine_looping \<or>
      (timestep \<noteq> None \<and> (c_Map corr_map = [] \<or> 100 \<le> c_len corr_map))"
    and radius: "0 \<le> overlap_kernel_radius kernel_radius_scheduler step timestep"
    and no_empty: "[] \<notin> set (map snd (c_Map corr_map))"
    and inside: "\<forall>occ\<in>set (multi (map snd (c_Map corr_map))).
        inside (length frame_seq) (c_height corr_map) (c_width corr_map) occ"
    and dist: "distinct (multi (map snd (c_Map corr_map)))"
    and shape_ok: "\<forall>avgs fs xs ys. length (algorithm avgs fs xs ys) = length avgs"
    and k: "k < length (c_Map corr_map)" "length (snd (c_Map corr_map ! k)) \<noteq> 1"
    and i: "i < length (snd (c_Map corr_map ! k))" "snd (c_Map corr_map ! k) ! i = ((y, x), f)"
    and bc: "b < f_batch (hd frame_seq)" "c < f_channels (hd frame_seq)"
  shows "(\<exists>out cons.
       overlap alpha_scheduler kernel_radius_scheduler algorithm engine_looping frame_seq
         corr_map step timestep = Inr out \<and>
       pass_consensus alpha_scheduler kernel_radius_scheduler algorithm engine_looping
         frame_seq corr_map step timestep k = Inr cons \<and>
       length cons = length (snd (c_Map corr_map ! k)) \<and>
       v_data out (nat f) b c (nat y) (nat x) =
         alpha_scheduler step timestep * (cons ! i) b c
         + (1 - alpha_scheduler step timestep) * f_data (frame_seq ! nat f) b c (nat y) (nat x)) \<and>
     (\<exists>out. overlap (constant_scheduler 1) (constant_scheduler 0) mean_consensus True
         [pixel_frame 10, pixel_frame 20, pixel_frame 30] scenario_map None None = Inr out \<and>
       v_data out 0 0 0 0 0 = 20 \<and> v_data out 1 0 0 0 0 = 20 \<and> v_data out 2 0 0 0 0 = 20) \<and>
     (\<exists>out. overlap (constant_scheduler (1 / 2)) (constant_scheduler 0) mean_consensus True
         [pixel_frame 10, pixel_frame 20, pixel_frame 30] scenario_map None None = Inr out \<and>
       v_data out 0 0 0 0 0 = 15 \<and> v_data out 1 0 0 0 0 = 20 \<and> v_data out 2 0 0 0 0 = 25)"
proof (intro conjI)
  show "\<exists>out cons.
       overlap alpha_scheduler kernel_radius_scheduler algorithm engine_looping frame_seq
         corr_map step timestep = Inr out \<and>
       pass_consensus alpha_scheduler kernel_radius_scheduler algorithm engine_looping
         frame_seq corr_map step timestep k = Inr cons \<and>
       length cons = length (snd (c_Map corr_map ! k)) \<and>
       v_data out (nat f) b c (nat y) (nat x) =
         alpha_scheduler step timestep * (cons ! i) b c
         + (1 - alpha_scheduler step timestep) * f_data (frame_seq ! nat f) b c (nat y) (nat x)"
    by (rule overlap_blend_general [OF assms])
  show "\<exists>out. overlap (constant_scheduler 1) (constant_scheduler 0) mean_consensus True
         [pixel_frame 10, pixel_frame 20, pixel_frame 30] scenario_map None None = Inr out \<and>
       v_data out 0 0 0 0 0 = 20 \<and> v_data out 1 0 0 0 0 = 20 \<and> v_data out 2 0 0 0 0 = 20"
    by (simp add: overlap_eval pixel_frame_def scenario_map_def)
  show "\<exists>out. overlap (constant_scheduler (1 / 2)) (constant_scheduler 0) mean_consensus True
         [pixel_frame 10, pixel_frame 20, pixel_frame 30] scenario_map None None = Inr out \<and>
       v_data out 0 0 0 0 0 = 15 \<and> v_data out 1 0 0 0 0 = 20 \<and> v_data out 2 0 0 0 0 = 25"
    by (simp add: overlap_eval pixel_frame_def scenario_map_def)
qed

theorem overlap_blend_witness:
  "\<exists>out cons.
     overlap (constant_scheduler (1 / 2)) (constant_scheduler 0) mean_consensus True
       [pixel_frame 10, pixel_frame 20, pixel_frame 30] scenario_map None None = Inr out \<and>
     pass_consensus (constant_scheduler (1 / 2)) (constant_scheduler 0) mean_consensus True
       [pixel_frame 10, pixel_frame 20, pixel_frame 30] scenario_map None None 0 = Inr cons \<and>
     length cons = 3 \<and> (cons ! 2) 0 0 = 20 \<and> v_data out 2 0 0 0 0 = 25"
proof -
  let ?fs = "[pixel_frame 10, pixel_frame 20, pixel_frame 30]"
  have m: "multi (map snd (c_Map scenario_map)) = [((0, 0), 0), ((0, 0), 1), ((0, 0), 2)]"
    by (simp add: scenario_map_def multi_def)
  have 1: "?fs \<noteq> []" by simp
  have 2: "list_all (\<lambda>fr. shape fr = shape (hd ?fs)) ?fs" by (simp add: pixel_frame_def shape_def)
  have 3: "f_height (hd ?fs) = c_height scenario_map" "f_width (hd ?fs) = c_width scenario_map"
    by (simp_all add: pixel_frame_def scenario_map_def)
  have 4: "True \<or> ((None :: real option) \<noteq> None \<and>
      (c_Map scenario_map = [] \<or> 100 \<le> c_len scenario_map))" by simp
  have 5: "0 \<le> overlap_kernel_radius (constant_scheduler 0) None None"
    by (simp add: overlap_kernel_radius_def constant_scheduler_def py_int_def)
  have 6: "[] \<notin> set (map snd (c_Map scenario_map))" by (simp add: scenario_map_def)
  have 7: "\<forall>occ\<in>set (multi (map snd (c_Map scenario_map))).
        inside (length ?fs) (c_height scenario_map) (c_width scenario_map) occ"
    unfolding m by (simp add: inside_def scenario_map_def)
  have 8: "distinct (multi (map snd (c_Map scenario_map)))" unfolding m by simp
  have 9: "\<forall>avgs fs xs ys. length (mean_consensus avgs fs xs ys) = length avgs"
    by (simp add: mean_consensus_def)
  have 10: "0 < length (c_Map scenario_map)" "length (snd (c_Map scenario_map ! 0)) \<noteq> 1"
    by (simp_all add: scenario_map_def)
  have 11: "2 < length (snd (c_Map scenario_map ! 0))" "snd (c_Map scenario_map ! 0) ! 2 = ((0, 0), 2)"
    by (simp_all add: scenario_map_def)
  have 12: "0 < f_batch (hd ?fs)" "0 < f_channels (hd ?fs)" by (simp_all add: pixel_frame_def)
  from overlap_blend [OF 1 2 3 4 5 6 7 8 9 10 11 12,
      where alpha_scheduler = "constant_scheduler (1 / 2)"]
  obtain out cons where
    run: "overlap (constant_scheduler (1 / 2)) (constant_scheduler 0) mean_consensus True ?fs
       scenario_map None None = Inr out" and
    pc: "pass_consensus (constant_scheduler (1 / 2)) (constant_scheduler 0) mean_consensus True
       ?fs scenario_map None None 0 = Inr cons" and
    lc: "length cons = length (snd (c_Map scenario_map ! 0))" and
    val: "v_data out (nat 2) 0 0 (nat 0) (nat 0) =
       constant_scheduler (1 / 2) None None * (cons ! 2) 0 0
       + (1 - constant_scheduler (1 / 2) None None) * f_data (?fs ! nat 2) 0 0 (nat 0) (nat 0)"
    by blast
  have "\<exists>cons'. pass_consensus (constant_scheduler (1 / 2)) (constant_scheduler 0) mean_consensus
       True ?fs scenario_map None None 0 = Inr cons' \<and> (cons' ! 2) 0 0 = 20"
    by (simp add: pass_consensus_def consensus_def neighbour_average_def overlap_eval
        pixel_frame_def scenario_map_def)
  with pc have c2: "(cons ! 2) 0 0 = 20" by auto
  have l3: "length cons = 3" using lc by (simp add: scenario_map_def)
  have "v_data out 2 0 0 0 0 = 25"
    using val c2 by (simp add: constant_scheduler_def pixel_frame_def)
  with run pc l3 c2 show ?thesis by blast
qed

text \<open>
  C3 (the code at the failing input). The spec's scenario: three one-pixel frames 10, 20,
  30, one id at position \<open>(0, 0)\<close> of each, radius 0, mean consensus. Outside the engine
  loop the call raises before it blends: ZeroDivisionError from the progress bar when a
  timestep is given (the map has one id, and \<open>1 // 100 = 0\<close>), for alpha 1 and for alpha
  0.5 alike, and TypeError from the log line when the timestep is \<open>None\<close>. The claim has the
  output 20, 20, 20 and 15, 20, 25, which the same calls return inside the engine loop.
\<close>

theorem overlap_scenario_progress_bar_raises:
  "overlap (constant_scheduler 1) (constant_scheduler 0) mean_consensus False
     [pixel_frame 10, pixel_frame 20, pixel_frame 30] scenario_map None (Some (1 / 2))
     = Inl ZeroDivisionError \<and>
   overlap (constant_scheduler (1 / 2)) (constant_scheduler 0) mean_consensus False
     [pixel_frame 10, pixel_frame 20, pixel_frame 30] scenario_map None (Some (1 / 2))
     = Inl ZeroDivisionError \<and>
   overlap (constant_scheduler 1) (constant_scheduler 0) mean_consensus False
     [pixel_frame 10, pixel_frame 20, pixel_frame 30] scenario_map None None = Inl TypeError \<and>
   (\<exists>out. overlap (constant_scheduler 1) (constant_scheduler 0) mean_consensus True
         [pixel_frame 10, pixel_frame 20, pixel_frame 30] scenario_map None (Some (1 / 2)) = Inr out \<and>
       v_data out 0 0 0 0 0 = 20 \<and> v_data out 1 0 0 0 0 = 20 \<and> v_data out 2 0 0 0 0 = 20) \<and>
   (\<exists>out. overlap (constant_scheduler (1 / 2)) (constant_scheduler 0) mean_consensus True
         [pixel_frame 10, pixel_frame 20, pixel_frame 30] scenario_map None (Some (1 / 2)) = Inr out \<and>
       v_data out 0 0 0 0 0 = 15 \<and> v_data out 1 0 0 0 0 = 20 \<and> v_data out 2 0 0 0 0 = 25)"
proof (intro conjI)
  show "overlap (constant_scheduler 1) (constant_scheduler 0) mean_consensus False
     [pixel_frame 10, pixel_frame 20, pixel_frame 30] scenario_map None (Some (1 / 2))
     = Inl ZeroDivisionError"
    by (simp add: overlap_def overlap_vertex_def shape_def torch_stack_def detach_def
        pixel_frame_def scenario_map_def Let_def)
  show "overlap (constant_scheduler (1 / 2)) (constant_scheduler 0) mean_consensus False
     [pixel_frame 10, pixel_frame 20, pixel_frame 30] scenario_map None (Some (1 / 2))
     = Inl ZeroDivisionError"
    by (simp add: overlap_def overlap_vertex_def shape_def torch_stack_def detach_def
        pixel_frame_def scenario_map_def Let_def)
  show "overlap (constant_scheduler 1) (constant_scheduler 0) mean_consensus False
     [pixel_frame 10, pixel_frame 20, pixel_frame 30] scenario_map None None = Inl TypeError"
    by (simp add: overlap_def overlap_vertex_def shape_def torch_stack_def detach_def
        pixel_frame_def scenario_map_def Let_def)
  show "\<exists>out. overlap (constant_scheduler 1) (constant_scheduler 0) mean_consensus True
         [pixel_frame 10, pixel_frame 20, pixel_frame 30] scenario_map None (Some (1 / 2)) = Inr out \<and>
       v_data out 0 0 0 0 0 = 20 \<and> v_data out 1 0 0 0 0 = 20 \<and> v_data out 2 0 0 0 0 = 20"
    by (simp add: overlap_eval pixel_frame_def scenario_map_def)
  show "\<exists>out. overlap (constant_scheduler (1 / 2)) (constant_scheduler 0) mean_consensus True
         [pixel_frame 10, pixel_frame 20, pixel_frame 30] scenario_map None (Some (1 / 2)) = Inr out \<and>
       v_data out 0 0 0 0 0 = 15 \<and> v_data out 1 0 0 0 0 = 20 \<and> v_data out 2 0 0 0 0 = 25"
    by (simp add: overlap_eval pixel_frame_def scenario_map_def)
qed

end
